theory Spec2Isabelle
  imports Complex_Main "HOL-Library.Multiset"
begin

section \<open>JavaScript numbers\<close>

text \<open>
  A JavaScript \<^verbatim>\<open>number\<close> is an IEEE 754 binary64 value: a finite number, one of the two
  infinities, or \<^verbatim>\<open>NaN\<close>. A finite number is carried as the real it denotes. Every
  arithmetic operation computes the exact real result and rounds it to binary64 (to nearest,
  ties to even), overflowing to an infinity, as IEEE 754 prescribes; the special values
  follow the ECMAScript rules for \<^verbatim>\<open>+\<close>, \<^verbatim>\<open>-\<close>, \<^verbatim>\<open>*\<close> and \<^verbatim>\<open>/\<close>.

  The sign of zero is not represented: \<open>Fin 0\<close> stands for both zeros, and a zero divisor is
  read as \<^verbatim>\<open>+0\<close>. In the functions below this never reaches a result: a balance is stored
  as \<^verbatim>\<open>(b || 0) + c\<close> or \<^verbatim>\<open>(b || 0) - c\<close>, where \<^verbatim>\<open>b || 0\<close> is never \<^verbatim>\<open>-0\<close>, so no stored value is
  \<^verbatim>\<open>-0\<close>; and a quotient by a zero amount is multiplied by \<^verbatim>\<open>costPerPerson\<close>, itself a zero,
  which gives \<^verbatim>\<open>NaN\<close> for either infinity.
\<close>

datatype jsnum = Fin real | PInf | NInf | NaN

text \<open>\<open>pow2 k\<close> is \<open>2\<close> to the integer power \<open>k\<close>.\<close>

definition pow2 :: "int \<Rightarrow> real" where
  "pow2 k = (if 0 \<le> k then 2 ^ nat k else 1 / 2 ^ nat (- k))"

text \<open>
  The exponent of the unit in the last place for a magnitude \<open>a\<close>: the largest \<open>e\<close> between
  \<open>-1074\<close> (subnormal numbers) and \<open>972\<close> with \<open>2 ^ (e + 52) \<le> a\<close>, and \<open>-1074\<close> when there
  is none. The search runs from the top; \<open>quantumSearch a (Suc k)\<close> tries \<open>e = k - 1073\<close>.
\<close>

primrec quantumSearch :: "real \<Rightarrow> nat \<Rightarrow> int" where
  "quantumSearch a 0 = - 1074"
| "quantumSearch a (Suc k) =
     (if pow2 (int k - 1021) \<le> a then int k - 1073 else quantumSearch a k)"

definition quantum :: "real \<Rightarrow> int" where
  "quantum a = quantumSearch a 2046"

text \<open>Rounding to the nearest integer, a tie going to the even one.\<close>

definition roundHalfEven :: "real \<Rightarrow> int" where
  "roundHalfEven q =
     (let f = \<lfloor>q\<rfloor>; d = q - of_int f
      in if d < 1 / 2 then f
         else if 1 / 2 < d then f + 1
         else if even f then f else f + 1)"

definition signedInf :: "bool \<Rightarrow> jsnum" where
  "signedInf pos = (if pos then PInf else NInf)"

text \<open>
  Rounding a real to binary64: the magnitude is rounded to a multiple of its unit in the last
  place; a result of \<open>2 ^ 1024\<close> or more is an infinity.
\<close>

definition round64 :: "real \<Rightarrow> jsnum" where
  "round64 x =
     (let a = \<bar>x\<bar>;
          e = quantum a;
          r = of_int (roundHalfEven (a / pow2 e)) * pow2 e
      in if pow2 1024 \<le> r then signedInf (0 < x)
         else Fin (if 0 < x then r else - r))"

fun jneg :: "jsnum \<Rightarrow> jsnum" where
  "jneg (Fin x) = Fin (- x)"
| "jneg PInf = NInf"
| "jneg NInf = PInf"
| "jneg NaN = NaN"

fun jadd :: "jsnum \<Rightarrow> jsnum \<Rightarrow> jsnum" where
  "jadd NaN _ = NaN"
| "jadd _ NaN = NaN"
| "jadd (Fin x) (Fin y) = round64 (x + y)"
| "jadd PInf NInf = NaN"
| "jadd NInf PInf = NaN"
| "jadd PInf _ = PInf"
| "jadd NInf _ = NInf"
| "jadd (Fin _) PInf = PInf"
| "jadd (Fin _) NInf = NInf"

definition jsub :: "jsnum \<Rightarrow> jsnum \<Rightarrow> jsnum" where
  "jsub a b = jadd a (jneg b)"

text \<open>\<open>jsign\<close> is \<open>True\<close> for the values with the sign bit clear; zero counts as \<^verbatim>\<open>+0\<close>.\<close>

fun jsign :: "jsnum \<Rightarrow> bool" where
  "jsign (Fin x) = (0 \<le> x)"
| "jsign PInf = True"
| "jsign NInf = False"
| "jsign NaN = True"

fun jmul :: "jsnum \<Rightarrow> jsnum \<Rightarrow> jsnum" where
  "jmul NaN _ = NaN"
| "jmul _ NaN = NaN"
| "jmul (Fin x) (Fin y) = round64 (x * y)"
| "jmul (Fin x) b = (if x = 0 then NaN else signedInf (jsign (Fin x) = jsign b))"
| "jmul a (Fin y) = (if y = 0 then NaN else signedInf (jsign a = jsign (Fin y)))"
| "jmul a b = signedInf (jsign a = jsign b)"

fun jdiv :: "jsnum \<Rightarrow> jsnum \<Rightarrow> jsnum" where
  "jdiv NaN _ = NaN"
| "jdiv _ NaN = NaN"
| "jdiv (Fin x) (Fin y) =
     (if y = 0 then (if x = 0 then NaN else signedInf (0 < x)) else round64 (x / y))"
| "jdiv (Fin x) b = Fin 0"
| "jdiv a (Fin y) = signedInf (jsign a = jsign (Fin y))"
| "jdiv a b = NaN"

text \<open>\<^verbatim>\<open>Math.abs\<close> and the comparison \<^verbatim>\<open><\<close>, which is false whenever an operand is \<^verbatim>\<open>NaN\<close>.\<close>

fun jabs :: "jsnum \<Rightarrow> jsnum" where
  "jabs (Fin x) = Fin \<bar>x\<bar>"
| "jabs PInf = PInf"
| "jabs NInf = PInf"
| "jabs NaN = NaN"

fun jlt :: "jsnum \<Rightarrow> jsnum \<Rightarrow> bool" where
  "jlt NaN _ = False"
| "jlt _ NaN = False"
| "jlt (Fin x) (Fin y) = (x < y)"
| "jlt NInf NInf = False"
| "jlt NInf _ = True"
| "jlt _ NInf = False"
| "jlt PInf _ = False"
| "jlt (Fin _) PInf = True"

text \<open>Truthiness of a number: \<^verbatim>\<open>0\<close> and \<^verbatim>\<open>NaN\<close> are falsy.\<close>

fun numTruthy :: "jsnum \<Rightarrow> bool" where
  "numTruthy (Fin x) = (x \<noteq> 0)"
| "numTruthy NaN = False"
| "numTruthy _ = True"

fun isFinite :: "jsnum \<Rightarrow> bool" where
  "isFinite (Fin _) = True"
| "isFinite _ = False"

text \<open>The literal \<^verbatim>\<open>0.01\<close>: the binary64 number nearest to one hundredth.\<close>

definition literal_0_01 :: jsnum where
  "literal_0_01 = Fin (5764607523034235 / 576460752303423488)"

section \<open>Dynamic values\<close>

text \<open>
  The rows fetched from the \<^verbatim>\<open>expenses\<close> table are typed \<^verbatim>\<open>any\<close>. A dynamic value is
  one of the JSON shapes or \<^verbatim>\<open>undefined\<close>. An object is the list of its own properties in
  enumeration order; its prototype is not represented.
\<close>

datatype jsval =
    Undefined
  | Null
  | Bool bool
  | Num jsnum
  | Str string
  | Arr "jsval list"
  | Obj "(string \<times> jsval) list"

fun truthy :: "jsval \<Rightarrow> bool" where
  "truthy Undefined = False"
| "truthy Null = False"
| "truthy (Bool b) = b"
| "truthy (Num n) = numTruthy n"
| "truthy (Str s) = (s \<noteq> [])"
| "truthy (Arr _) = True"
| "truthy (Obj _) = True"

datatype js_error = TypeError

section \<open>Data model (types.ts)\<close>

record profile =
  profile_id :: string
  email :: string
  name :: string
  avatar :: "string option"

text \<open>\<^verbatim>\<open>interface Friend extends Profile { isMe?: boolean }\<close>\<close>

record friend = profile +
  isMe :: "bool option"

datatype category = Food | Transport | Entertainment | Other

text \<open>
  \<^verbatim>\<open>Record<string, number>\<close> as the engine receives it: the own properties of the object in
  the order in which \<^verbatim>\<open>Object.entries\<close> enumerates them. The keys of an object are
  distinct; where a property depends on that, it is a hypothesis.
\<close>

type_synonym numrecord = "(string \<times> jsnum) list"

record expense =
  expense_id :: string
  description :: string
  amount :: jsnum
  paidBy :: numrecord
  splitBetween :: "string list"
  date :: string
  category :: category
  createdBy :: "string option"

section \<open>The accumulator object \<^verbatim>\<open>bals\<close>\<close>

text \<open>
  \<^verbatim>\<open>bals\<close> starts as the literal \<^verbatim>\<open>{}\<close>, so its prototype is \<^verbatim>\<open>Object.prototype\<close>. Its own
  properties are kept in creation order. A stored value is a number or, when an inherited
  member has been read (see \<open>getOrZero\<close>), a string; of such a string only its being a
  non-empty, non-numeric string matters, and its characters are not represented.
\<close>

datatype balval = NumVal jsnum | StrVal

type_synonym balrecord = "(string \<times> balval) list"

record balance =
  friendId :: string
  balance_amount :: balval

text \<open>The property names of \<^verbatim>\<open>Object.prototype\<close>.\<close>

definition objectPrototypeKeys :: "string list" where
  "objectPrototypeKeys =
     [''constructor'', ''__defineGetter__'', ''__defineSetter__'', ''hasOwnProperty'',
      ''__lookupGetter__'', ''__lookupSetter__'', ''isPrototypeOf'', ''propertyIsEnumerable'',
      ''toString'', ''valueOf'', ''__proto__'', ''toLocaleString'']"

text \<open>
  \<^verbatim>\<open>bals[k] = v\<close> with a primitive \<open>v\<close>. The key \<^verbatim>\<open>__proto__\<close> reaches the setter of
  \<^verbatim>\<open>Object.prototype\<close>, which ignores a primitive: no property is created. Any other key
  creates or overwrites an own property; an existing one keeps its place.
\<close>

fun putProp :: "balrecord \<Rightarrow> string \<Rightarrow> balval \<Rightarrow> balrecord" where
  "putProp [] k v = [(k, v)]"
| "putProp (p # ps) k v = (if fst p = k then (k, v) # ps else p # putProp ps k v)"

definition setProp :: "balrecord \<Rightarrow> string \<Rightarrow> balval \<Rightarrow> balrecord" where
  "setProp obj k v = (if k = ''__proto__'' then obj else putProp obj k v)"

text \<open>
  \<^verbatim>\<open>bals[k] || 0\<close>. An own number is replaced by \<^verbatim>\<open>0\<close> when it is \<^verbatim>\<open>0\<close> or \<^verbatim>\<open>NaN\<close>; an own
  string is truthy. A key that is not an own property is looked up in \<^verbatim>\<open>Object.prototype\<close>:
  its members are functions (for \<^verbatim>\<open>__proto__\<close>, the prototype object), all truthy; any
  other key reads \<^verbatim>\<open>undefined\<close> and gives \<^verbatim>\<open>0\<close>.
\<close>

datatype operand = Number jsnum | NonNumber

definition getOrZero :: "balrecord \<Rightarrow> string \<Rightarrow> operand" where
  "getOrZero obj k =
     (case map_of obj k of
        Some (NumVal n) \<Rightarrow> Number (if numTruthy n then n else Fin 0)
      | Some StrVal \<Rightarrow> NonNumber
      | None \<Rightarrow> if k \<in> set objectPrototypeKeys then NonNumber else Number (Fin 0))"

text \<open>
  \<^verbatim>\<open>x + debtChunk\<close> and \<^verbatim>\<open>x - debtChunk\<close> for a number \<^verbatim>\<open>debtChunk\<close>: \<^verbatim>\<open>+\<close> concatenates when
  \<open>x\<close> is a string, a function or an object; \<^verbatim>\<open>-\<close> converts \<open>x\<close> to a number first, and
  these strings convert to \<^verbatim>\<open>NaN\<close>.
\<close>

fun plusChunk :: "operand \<Rightarrow> jsnum \<Rightarrow> balval" where
  "plusChunk (Number n) c = NumVal (jadd n c)"
| "plusChunk NonNumber c = StrVal"

fun minusChunk :: "operand \<Rightarrow> jsnum \<Rightarrow> balval" where
  "minusChunk (Number n) c = NumVal (jsub n c)"
| "minusChunk NonNumber c = NumVal NaN"

text \<open>
  \<^verbatim>\<open>Object.entries\<close>: the own properties whose key is an array index (a canonical decimal
  numeral below \<open>2 ^ 32 - 1\<close>) come first, in ascending numeric order; the others follow in
  creation order.
\<close>

definition isDigit :: "char \<Rightarrow> bool" where
  "isDigit c = (c \<in> set ''0123456789'')"

definition decimalValue :: "string \<Rightarrow> nat" where
  "decimalValue s = foldl (\<lambda>n c. 10 * n + (of_char c - 48)) 0 s"

definition arrayIndex :: "string \<Rightarrow> nat option" where
  "arrayIndex k =
     (if k \<noteq> [] \<and> list_all isDigit k \<and> (k = ''0'' \<or> hd k \<noteq> CHR ''0'') \<and>
         decimalValue k < 4294967295
      then Some (decimalValue k) else None)"

definition indexed :: "string \<times> 'v \<Rightarrow> (nat \<times> string \<times> 'v) option" where
  "indexed entry = map_option (\<lambda>i. (i, entry)) (arrayIndex (fst entry))"

definition objectEntries :: "(string \<times> 'v) list \<Rightarrow> (string \<times> 'v) list" where
  "objectEntries obj =
     map snd (sort_key fst (List.map_filter indexed obj)) @
     filter (\<lambda>entry. arrayIndex (fst entry) = None) obj"

section \<open>Balance Engine (App.tsx, the \<^verbatim>\<open>balances\<close> memo)\<close>

text \<open>\<^verbatim>\<open>friends.forEach(f => { if (!f.isMe) bals[f.id] = 0; })\<close>\<close>

definition notMe :: "friend \<Rightarrow> bool" where
  "notMe f = (isMe f \<noteq> Some True)"

definition initFriend :: "balrecord \<Rightarrow> friend \<Rightarrow> balrecord" where
  "initFriend bals f = (if notMe f then setProp bals (profile_id f) (NumVal (Fin 0)) else bals)"

definition initBals :: "friend list \<Rightarrow> balrecord" where
  "initBals friends = foldl initFriend [] friends"

text \<open>
  The body of the inner \<^verbatim>\<open>payers.forEach\<close>, for one consumer and one
  \<^verbatim>\<open>[payerId, paidAmount]\<close> entry. \<open>me\<close> is \<^verbatim>\<open>userProfile.id\<close>, \<open>expAmount\<close> is
  \<^verbatim>\<open>exp.amount\<close>. The two \<^verbatim>\<open>if\<close> statements run one after the other.
\<close>

definition payerStep :: "string \<Rightarrow> jsnum \<Rightarrow> jsnum \<Rightarrow> string \<Rightarrow> balrecord \<Rightarrow> string \<times> jsnum \<Rightarrow> balrecord" where
  "payerStep me costPerPerson expAmount consumerId bals entry =
     (let payerId = fst entry;
          paidAmount = snd entry;
          weight = jdiv paidAmount expAmount;
          debtChunk = jmul costPerPerson weight;
          bals1 = (if payerId = me \<and> consumerId \<noteq> me
                   then setProp bals consumerId (plusChunk (getOrZero bals consumerId) debtChunk)
                   else bals);
          bals2 = (if payerId \<noteq> me \<and> consumerId = me
                   then setProp bals1 payerId (minusChunk (getOrZero bals1 payerId) debtChunk)
                   else bals1)
      in bals2)"

definition consumerStep :: "string \<Rightarrow> jsnum \<Rightarrow> jsnum \<Rightarrow> numrecord \<Rightarrow> balrecord \<Rightarrow> string \<Rightarrow> balrecord" where
  "consumerStep me costPerPerson expAmount payers bals consumerId =
     foldl (payerStep me costPerPerson expAmount consumerId) bals payers"

definition expenseStep :: "string \<Rightarrow> balrecord \<Rightarrow> expense \<Rightarrow> balrecord" where
  "expenseStep me bals e =
     (let costPerPerson = jdiv (amount e) (Fin (real (length (splitBetween e))));
          consumers = splitBetween e;
          payers = paidBy e
      in foldl (consumerStep me costPerPerson (amount e) payers) bals consumers)"

definition toBalance :: "string \<times> balval \<Rightarrow> balance" where
  "toBalance entry = \<lparr>friendId = fst entry, balance_amount = snd entry\<rparr>"

text \<open>
  The whole memo. \<open>userProfile\<close> is \<open>None\<close> while no profile is loaded, in which case the
  memo returns the empty array.
\<close>

definition balances :: "friend list \<Rightarrow> profile option \<Rightarrow> expense list \<Rightarrow> balance list" where
  "balances friends userProfile expenses =
     (let bals = initBals friends
      in case userProfile of
           None \<Rightarrow> []
         | Some up \<Rightarrow>
             map toBalance (objectEntries (foldl (expenseStep (profile_id up)) bals expenses)))"

text \<open>
  The component state the memo closes over (the \<^verbatim>\<open>useState\<close> cells of \<^verbatim>\<open>App\<close>). The memo
  reads \<^verbatim>\<open>friends\<close>, \<^verbatim>\<open>userProfile\<close> and \<^verbatim>\<open>expenses\<close>.
\<close>

datatype request_status = Pending | Accepted

record friend_request =
  request_id :: string
  sender_id :: string
  receiver_id :: string
  status :: request_status

datatype tab = HomeTab | FriendsTab | ProfileTab

record app_state =
  st_session :: "string option"
  st_userProfile :: "profile option"
  st_friends :: "friend list"
  st_expenses :: "expense list"
  st_requests :: "friend_request list"
  st_loading :: bool
  st_activeTab :: tab
  st_isAddModalOpen :: bool
  st_selectedExpense :: "expense option"

definition balancesMemo :: "app_state \<Rightarrow> balance list" where
  "balancesMemo st = balances (st_friends st) (st_userProfile st) (st_expenses st)"

section \<open>Expense Normalizer (App.tsx, \<^verbatim>\<open>formattedExpenses\<close> in \<^verbatim>\<open>fetchUserData\<close>)\<close>

text \<open>
  The callback receives a row \<open>e\<close> typed \<^verbatim>\<open>any\<close> and reads eight columns from it. Reading a
  property of \<^verbatim>\<open>null\<close> or \<^verbatim>\<open>undefined\<close> throws a \<^verbatim>\<open>TypeError\<close>; that case is decided
  once, in \<open>formatExpense\<close>. On any other value the read succeeds: an object yields its own
  property, and a missing column, or any column of an array or a primitive, reads
  \<^verbatim>\<open>undefined\<close> (none of the eight names is a member of a built-in prototype).
\<close>

definition col :: "jsval \<Rightarrow> string \<Rightarrow> jsval" where
  "col e k =
     (case e of
        Obj props \<Rightarrow> (case map_of props k of Some v \<Rightarrow> v | None \<Rightarrow> Undefined)
      | _ \<Rightarrow> Undefined)"

text \<open>
  The object the callback returns. TypeScript annotates it \<^verbatim>\<open>Expense\<close>, but nothing is
  checked at run time, so its fields hold whatever the row held.
\<close>

record formatted_expense =
  fmt_id :: jsval
  fmt_description :: jsval
  fmt_amount :: jsval
  fmt_paidBy :: jsval
  fmt_splitBetween :: jsval
  fmt_date :: jsval
  fmt_category :: jsval
  fmt_createdBy :: jsval

text \<open>
  \<^verbatim>\<open>typeof v === 'string'\<close> selects \<open>Str\<close>; \<^verbatim>\<open>typeof v === 'object' && v !== null\<close> selects
  objects and arrays; everything else leaves the initial \<^verbatim>\<open>{}\<close>. In the string case the
  callback runs \<^verbatim>\<open>paidByMap[e.paid_by] = e.amount\<close> on the fresh \<^verbatim>\<open>{}\<close>: for the key
  \<^verbatim>\<open>__proto__\<close> this sets or leaves the prototype and creates no own property.
\<close>

fun paidByMap :: "jsval \<Rightarrow> jsval \<Rightarrow> jsval" where
  "paidByMap (Str s) amt = (if s = ''__proto__'' then Obj [] else Obj [(s, amt)])"
| "paidByMap (Obj m) amt = Obj m"
| "paidByMap (Arr a) amt = Arr a"
| "paidByMap _ amt = Obj []"

definition formatted :: "jsval \<Rightarrow> formatted_expense" where
  "formatted e =
     \<lparr>fmt_id = col e ''id'',
      fmt_description = col e ''description'',
      fmt_amount = col e ''amount'',
      fmt_paidBy = paidByMap (col e ''paid_by'') (col e ''amount''),
      fmt_splitBetween =
        (if truthy (col e ''split_between'') then col e ''split_between'' else Arr []),
      fmt_date = col e ''date'',
      fmt_category = col e ''category'',
      fmt_createdBy = col e ''created_by''\<rparr>"

fun formatExpense :: "jsval \<Rightarrow> js_error + formatted_expense" where
  "formatExpense Undefined = Inl TypeError"
| "formatExpense Null = Inl TypeError"
| "formatExpense e = Inr (formatted e)"

text \<open>\<^verbatim>\<open>rows.map(...)\<close>: the first exception ends the traversal.\<close>

fun mapRows :: "jsval list \<Rightarrow> js_error + formatted_expense list" where
  "mapRows [] = Inr []"
| "mapRows (e # es) =
     (case formatExpense e of
        Inl err \<Rightarrow> Inl err
      | Inr r \<Rightarrow> (case mapRows es of Inl err \<Rightarrow> Inl err | Inr rs \<Rightarrow> Inr (r # rs)))"

text \<open>\<^verbatim>\<open>(exps || []).map(...)\<close>, with \<open>None\<close> for a \<^verbatim>\<open>null\<close> result of the query.\<close>

definition formattedExpenses :: "jsval list option \<Rightarrow> js_error + formatted_expense list" where
  "formattedExpenses exps = (case exps of None \<Rightarrow> Inr [] | Some rows \<Rightarrow> mapRows rows)"

section \<open>Submission Encoder (App.tsx, \<^verbatim>\<open>handleAddExpense\<close>)\<close>

text \<open>\<^verbatim>\<open>Omit<Expense, 'id' | 'date'>\<close>\<close>

record new_expense =
  new_description :: string
  new_amount :: jsnum
  new_paidBy :: numrecord
  new_splitBetween :: "string list"
  new_category :: category
  new_createdBy :: "string option"

text \<open>The \<^verbatim>\<open>paid_by\<close> column receives either a bare id string or the mapping.\<close>

datatype paid_by_payload = PayerId string | PayerMap numrecord

record payload =
  payload_description :: string
  payload_amount :: jsnum
  payload_paid_by :: paid_by_payload
  payload_split_between :: "string list"
  payload_category :: category
  payload_date :: string
  payload_created_by :: string

text \<open>
  \<^verbatim>\<open>newExpenseData.paidBy[singlePayerId]\<close>, read as the number the subtraction uses. The key
  comes from \<^verbatim>\<open>Object.keys\<close>, so it is an own property; \<^verbatim>\<open>undefined\<close> would convert to
  \<^verbatim>\<open>NaN\<close>.
\<close>

definition propAsNumber :: "numrecord \<Rightarrow> string \<Rightarrow> jsnum" where
  "propAsNumber obj k = (case map_of obj k of None \<Rightarrow> NaN | Some v \<Rightarrow> v)"

text \<open>\<^verbatim>\<open>Math.abs(paid - amount) < 0.01\<close>, every step in binary64.\<close>

definition withinTolerance :: "jsnum \<Rightarrow> jsnum \<Rightarrow> bool" where
  "withinTolerance paid amt = jlt (jabs (jsub paid amt)) literal_0_01"

definition paidByPayload :: "new_expense \<Rightarrow> paid_by_payload" where
  "paidByPayload newExpenseData =
     (let payerIds = map fst (new_paidBy newExpenseData)
      in if length payerIds = 1
         then (let singlePayerId = hd payerIds
               in if withinTolerance (propAsNumber (new_paidBy newExpenseData) singlePayerId)
                       (new_amount newExpenseData)
                  then PayerId singlePayerId
                  else PayerMap (new_paidBy newExpenseData))
         else PayerMap (new_paidBy newExpenseData))"

text \<open>
  The record handed to \<^verbatim>\<open>supabase.from('expenses').insert\<close>; \<open>None\<close> when no profile is
  loaded and the handler returns at once. \<open>now\<close> is \<^verbatim>\<open>new Date().toISOString()\<close>.
\<close>

definition handleAddExpense :: "profile option \<Rightarrow> string \<Rightarrow> new_expense \<Rightarrow> payload option" where
  "handleAddExpense userProfile now newExpenseData =
     (case userProfile of
        None \<Rightarrow> None
      | Some up \<Rightarrow>
          Some \<lparr>payload_description = new_description newExpenseData,
                payload_amount = new_amount newExpenseData,
                payload_paid_by = paidByPayload newExpenseData,
                payload_split_between = new_splitBetween newExpenseData,
                payload_category = new_category newExpenseData,
                payload_date = now,
                payload_created_by = profile_id up\<rparr>)"

section \<open>Vocabulary of the specification\<close>

text \<open>The own property names of a record object, and the ids of an output array.\<close>

definition keys :: "(string \<times> 'v) list \<Rightarrow> string set" where
  "keys obj = fst ` set obj"

definition outputIds :: "balance list \<Rightarrow> string set" where
  "outputIds bs = friendId ` set bs"

text \<open>
  The accumulation rule in the words of the specification, in the engine's arithmetic:
  \<open>debtChunk = (amount / |splitBetween|) * (paidAmount / amount)\<close>; the adjustment that one
  (payer entry, consumer) pair of expense \<open>e\<close> makes to the balance of friend \<open>f\<close>, as the
  list of the numbers to add (one number or none); the adjustments of all pairs of all
  expenses, in the order consumers-then-payers within each expense; and their sum, added up
  from \<^verbatim>\<open>0\<close> in that order.
\<close>

definition spec_debtChunk :: "expense \<Rightarrow> jsnum \<Rightarrow> jsnum" where
  "spec_debtChunk e paidAmount =
     jmul (jdiv (amount e) (Fin (real (length (splitBetween e))))) (jdiv paidAmount (amount e))"

definition spec_adjustment :: "string \<Rightarrow> expense \<Rightarrow> string \<times> jsnum \<Rightarrow> string \<Rightarrow> string \<Rightarrow> jsnum list" where
  "spec_adjustment me e entry consumerId f =
     (if fst entry = me \<and> consumerId \<noteq> me
      then (if f = consumerId then [spec_debtChunk e (snd entry)] else [])
      else if consumerId = me \<and> fst entry \<noteq> me
      then (if f = fst entry then [jneg (spec_debtChunk e (snd entry))] else [])
      else [])"

definition spec_adjustments :: "string \<Rightarrow> expense list \<Rightarrow> string \<Rightarrow> jsnum list" where
  "spec_adjustments me es f =
     concat (map (\<lambda>e. concat (map (\<lambda>consumerId.
       concat (map (\<lambda>entry. spec_adjustment me e entry consumerId f) (paidBy e)))
       (splitBetween e))) es)"

definition spec_owed :: "string \<Rightarrow> expense list \<Rightarrow> string \<Rightarrow> jsnum" where
  "spec_owed me es f = foldl jadd (Fin 0) (spec_adjustments me es f)"

text \<open>
  The expenses the accumulation rule is stated for: a non-zero amount and a non-empty split,
  all numbers finite.
\<close>

definition regularExpense :: "expense \<Rightarrow> bool" where
  "regularExpense e \<longleftrightarrow>
     isFinite (amount e) \<and> amount e \<noteq> Fin 0 \<and> splitBetween e \<noteq> [] \<and>
     list_all (\<lambda>entry. isFinite (snd entry)) (paidBy e)"

text \<open>
  The ids one expense makes owe the acting user (consumers, when the acting user paid), and
  the ids the acting user comes to owe (payers, when the acting user consumed).
\<close>

definition owedBy :: "string \<Rightarrow> expense \<Rightarrow> string set" where
  "owedBy me e = {c \<in> set (splitBetween e). c \<noteq> me \<and> me \<in> keys (paidBy e)}"

definition owedTo :: "string \<Rightarrow> expense \<Rightarrow> string set" where
  "owedTo me e = {p \<in> keys (paidBy e). p \<noteq> me \<and> me \<in> set (splitBetween e)}"

text \<open>
  Two expenses with the same content: every field equal, the \<open>paidBy\<close> objects holding the
  same properties, possibly enumerated in a different order.
\<close>

definition sameContent :: "expense \<Rightarrow> expense \<Rightarrow> bool" where
  "sameContent e e' \<longleftrightarrow>
     expense_id e = expense_id e' \<and> description e = description e' \<and> amount e = amount e' \<and>
     splitBetween e = splitBetween e' \<and> date e = date e' \<and> category e = category e' \<and>
     createdBy e = createdBy e' \<and> mset (paidBy e) = mset (paidBy e')"

text \<open>
  For the proofs. \<open>tracks bals f d\<close>: as long as the running sum \<open>d\<close> is a number, it is what
  \<open>bals\<close> holds for \<open>f\<close> (an absent entry standing for \<^verbatim>\<open>0\<close>). \<open>pairAdjust\<close> is
  \<open>spec_adjustment\<close> in terms of \<^verbatim>\<open>costPerPerson\<close> and \<^verbatim>\<open>exp.amount\<close>. The functions on maps
  are the engine's steps with the creation order of the properties forgotten.
\<close>

definition tracks :: "balrecord \<Rightarrow> string \<Rightarrow> jsnum \<Rightarrow> bool" where
  "tracks bals f d \<longleftrightarrow>
     (d \<noteq> NaN \<longrightarrow> (map_of bals f = None \<and> d = Fin 0) \<or> map_of bals f = Some (NumVal d))"

definition pairAdjust :: "string \<Rightarrow> jsnum \<Rightarrow> jsnum \<Rightarrow> string \<times> jsnum \<Rightarrow> string \<Rightarrow> string \<Rightarrow> jsnum list" where
  "pairAdjust me c a entry cons f =
     (if fst entry = me \<and> cons \<noteq> me
      then (if f = cons then [jmul c (jdiv (snd entry) a)] else [])
      else if cons = me \<and> fst entry \<noteq> me
      then (if f = fst entry then [jneg (jmul c (jdiv (snd entry) a))] else [])
      else [])"

definition getOrZeroM :: "(string \<rightharpoonup> balval) \<Rightarrow> string \<Rightarrow> operand" where
  "getOrZeroM m k =
     (case m k of
        Some (NumVal n) \<Rightarrow> Number (if numTruthy n then n else Fin 0)
      | Some StrVal \<Rightarrow> NonNumber
      | None \<Rightarrow> if k \<in> set objectPrototypeKeys then NonNumber else Number (Fin 0))"

definition setPropM :: "(string \<rightharpoonup> balval) \<Rightarrow> string \<Rightarrow> balval \<Rightarrow> (string \<rightharpoonup> balval)" where
  "setPropM m k v = (if k = ''__proto__'' then m else m(k \<mapsto> v))"

definition payerStepM :: "string \<Rightarrow> jsnum \<Rightarrow> jsnum \<Rightarrow> string \<Rightarrow> string \<times> jsnum \<Rightarrow> (string \<rightharpoonup> balval) \<Rightarrow> (string \<rightharpoonup> balval)" where
  "payerStepM me c a cons entry m =
     (let debtChunk = jmul c (jdiv (snd entry) a);
          m1 = (if fst entry = me \<and> cons \<noteq> me
                then setPropM m cons (plusChunk (getOrZeroM m cons) debtChunk) else m);
          m2 = (if fst entry \<noteq> me \<and> cons = me
                then setPropM m1 (fst entry) (minusChunk (getOrZeroM m1 (fst entry)) debtChunk)
                else m1)
      in m2)"

definition expenseStepM :: "string \<Rightarrow> expense \<Rightarrow> (string \<rightharpoonup> balval) \<Rightarrow> (string \<rightharpoonup> balval)" where
  "expenseStepM me e m =
     fold (\<lambda>cons. fold (payerStepM me (jdiv (amount e) (Fin (real (length (splitBetween e)))))
                           (amount e) cons) (paidBy e))
       (splitBetween e) m"

section \<open>Example data\<close>

text \<open>
  The acting user is \<open>A\<close>; \<open>B\<close> and \<open>C\<close> are friends; \<open>D\<close> and \<open>E\<close> are profiles that
  appear in expenses only.
\<close>

definition profileA :: profile where
  "profileA = \<lparr>profile_id = ''A'', email = ''a@example.org'', name = ''Ann'', avatar = None\<rparr>"

definition mkFriend :: "string \<Rightarrow> bool option \<Rightarrow> friend" where
  "mkFriend i m = \<lparr>profile_id = i, email = i @ ''@example.org'', name = i, avatar = None, isMe = m\<rparr>"

definition mkExpense :: "jsnum \<Rightarrow> numrecord \<Rightarrow> string list \<Rightarrow> expense" where
  "mkExpense a p s =
     \<lparr>expense_id = ''e1'', description = ''dinner'', amount = a, paidBy = p, splitBetween = s,
      date = ''2024-01-01T00:00:00.000Z'', category = Other, createdBy = None\<rparr>"

definition friendsABC :: "friend list" where
  "friendsABC = [mkFriend ''A'' (Some True), mkFriend ''B'' (Some False), mkFriend ''C'' None]"

definition dinner :: expense where
  "dinner = mkExpense (Fin 300) [(''A'', Fin 300)] [''A'', ''B'', ''C'']"

definition taxi :: expense where
  "taxi = mkExpense (Fin 200) [(''B'', Fin 200)] [''A'', ''B'']"

definition orphan :: expense where
  "orphan = mkExpense (Fin 50) [(''A'', Fin 50)] []"

definition gift :: expense where
  "gift = mkExpense (Fin 80) [(''A'', Fin 60), (''D'', Fin 20)] [''A'', ''E'']"

text \<open>\<open>D\<close> and \<open>E\<close> pay for \<open>A\<close>; the same expense with the payers enumerated the other way.\<close>

definition pooled :: expense where
  "pooled = mkExpense (Fin 80) [(''D'', Fin 60), (''E'', Fin 20)] [''A'']"

definition pooledReordered :: expense where
  "pooledReordered = mkExpense (Fin 80) [(''E'', Fin 20), (''D'', Fin 60)] [''A'']"

text \<open>A hundred paid by \<open>A\<close> and split three ways.\<close>

definition trio :: expense where
  "trio = mkExpense (Fin 100) [(''A'', Fin 100)] [''A'', ''B'', ''C'']"

definition freebie :: expense where
  "freebie = mkExpense (Fin 0) [(''A'', Fin 0)] [''A'', ''B'']"

text \<open>
  Two expenses of amount one half on which \<open>2 ^ 1023\<close> was recorded as paid, once by \<open>A\<close>
  for \<open>B\<close> and once by \<open>B\<close> for \<open>A\<close>: the weight \<open>2 ^ 1023 / 0.5\<close> overflows.
\<close>

definition lent :: expense where
  "lent = mkExpense (Fin (1 / 2)) [(''A'', Fin (pow2 1023))] [''B'']"

definition borrowed :: expense where
  "borrowed = mkExpense (Fin (1 / 2)) [(''B'', Fin (pow2 1023))] [''A'']"

text \<open>Expenses shared with profiles whose ids are member names of \<^verbatim>\<open>Object.prototype\<close>.\<close>

definition withConstructor :: expense where
  "withConstructor = mkExpense (Fin 200) [(''A'', Fin 200)] [''A'', ''constructor'']"

definition withProto :: expense where
  "withProto = mkExpense (Fin 200) [(''A'', Fin 200)] [''A'', ''__proto__'']"

definition stateHome :: app_state where
  "stateHome =
     \<lparr>st_session = Some ''token'', st_userProfile = Some profileA, st_friends = friendsABC,
      st_expenses = [pooled], st_requests = [], st_loading = False,
      st_activeTab = HomeTab, st_isAddModalOpen = False, st_selectedExpense = None\<rparr>"

definition stateProfileTab :: app_state where
  "stateProfileTab =
     stateHome\<lparr>st_userProfile := Some (profileA\<lparr>name := ''Anna''\<rparr>),
               st_expenses := [pooledReordered],
               st_activeTab := ProfileTab, st_isAddModalOpen := True\<rparr>"

definition mkDraft :: "jsnum \<Rightarrow> numrecord \<Rightarrow> new_expense" where
  "mkDraft a p =
     \<lparr>new_description = ''hotel'', new_amount = a, new_paidBy = p,
      new_splitBetween = [''A'', ''B''], new_category = Other, new_createdBy = None\<rparr>"

definition draftSingle :: new_expense where
  "draftSingle = mkDraft (Fin 300) [(''A'', Fin 300)]"

definition draftPartial :: new_expense where
  "draftPartial = mkDraft (Fin 300) [(''A'', Fin 250)]"

definition draftShared :: new_expense where
  "draftShared = mkDraft (Fin 300) [(''A'', Fin 150), (''B'', Fin 150)]"

definition draftDrift :: new_expense where
  "draftDrift = mkDraft (Fin 300) [(''A'', Fin 100), (''B'', Fin 150)]"

text \<open>The binary64 numbers nearest to \<open>0.0101\<close> and to \<open>0.0001\<close>.\<close>

definition double_0_0101 :: real where
  "double_0_0101 = 5822253598264577 / 576460752303423488"

definition double_0_0001 :: real where
  "double_0_0001 = 7378697629483821 / 73786976294838206464"

definition mkRow :: "jsval \<Rightarrow> jsval \<Rightarrow> jsval" where
  "mkRow pb sb =
     Obj [(''id'', Str ''r1''), (''description'', Str ''lunch''), (''amount'', Num (Fin 300)),
          (''paid_by'', pb), (''split_between'', sb), (''date'', Str ''2024-01-01''),
          (''category'', Str ''food'')]"

definition rowLegacy :: jsval where
  "rowLegacy = mkRow (Str ''u1'') (Arr [Str ''u1'', Str ''u2''])"

definition rowMapping :: jsval where
  "rowMapping = mkRow (Obj [(''u1'', Num (Fin 100)), (''u2'', Num (Fin 200))]) (Arr [Str ''u1''])"

definition rowNull :: jsval where
  "rowNull = mkRow Null Undefined"

definition rowProto :: jsval where
  "rowProto = mkRow (Str ''__proto__'') (Arr [Str ''u1''])"

section \<open>Auxiliary lemmas: rounding\<close>

lemma pow2_powi: "pow2 k = 2 powi k"
  by (simp add: pow2_def power_int_def inverse_eq_divide power_one_over)

lemma pow2_pos [simp]: "0 < pow2 k"
  by (simp add: pow2_powi)

lemma pow2_nonzero [simp]: "pow2 k \<noteq> 0"
  using pow2_pos [of k] by (rule less_imp_neq [symmetric])

lemma pow2_add: "pow2 (a + b) = pow2 a * pow2 b"
  by (simp add: pow2_powi power_int_add)

lemma pow2_less_iff [simp]: "pow2 a < pow2 b \<longleftrightarrow> a < b"
proof
  assume "a < b"
  then show "pow2 a < pow2 b" by (simp add: pow2_powi power_int_strict_increasing)
next
  assume l: "pow2 a < pow2 b"
  show "a < b"
  proof (rule ccontr)
    assume "\<not> a < b"
    then have "b \<le> a" by simp
    then have "pow2 b \<le> pow2 a" by (simp add: pow2_powi power_int_increasing)
    with l show False by simp
  qed
qed

lemma pow2_le_iff [simp]: "pow2 a \<le> pow2 b \<longleftrightarrow> a \<le> b"
  using pow2_less_iff [of b a] by (simp add: not_less [symmetric] del: pow2_less_iff)

lemma pow2_nat: "0 \<le> k \<Longrightarrow> pow2 k = of_int (2 ^ nat k)"
  by (simp add: pow2_def)

lemma quantumSearch_ge: "- 1074 \<le> quantumSearch a n"
  by (induction n) auto

lemma quantumSearch_witness:
  "quantumSearch a n = - 1074 \<or> pow2 (quantumSearch a n + 52) \<le> a"
  by (induction n) (auto simp: algebra_simps)

lemma roundHalfEven_of_int [simp]: "roundHalfEven (of_int z) = z"
  by (simp add: roundHalfEven_def)

lemma roundHalfEven_ge_floor: "\<lfloor>q\<rfloor> \<le> roundHalfEven q"
  by (simp add: roundHalfEven_def Let_def)

lemma round64_exact:
  assumes m: "\<bar>m\<bar> < 2 ^ 53" and lo: "- 1074 \<le> e" and hi: "e \<le> 971"
  shows "round64 (of_int m * pow2 e) = Fin (of_int m * pow2 e)"
proof -
  define x :: real where "x = of_int m * pow2 e"
  define a where "a = \<bar>x\<bar>"
  define q where "q = quantum a"
  have a: "a = of_int \<bar>m\<bar> * pow2 e" by (simp add: a_def x_def abs_mult abs_of_pos)
  have "of_int \<bar>m\<bar> < (2 ^ 53 :: real)" using m by (metis of_int_less_numeral_power_cancel_iff)
  moreover have "pow2 53 = 2 ^ 53" by (simp add: pow2_def)
  ultimately have a_lt: "a < pow2 (e + 53)"
    unfolding a pow2_add by (simp add: mult.commute)
  have q_le: "q \<le> e"
  proof -
    from quantumSearch_witness [of a 2046]
    consider "q = - 1074" | "pow2 (q + 52) \<le> a" by (auto simp: quantum_def q_def)
    then show ?thesis
    proof cases
      case 1
      with lo show ?thesis by simp
    next
      case 2
      from 2 a_lt have "pow2 (q + 52) < pow2 (e + 53)" by (rule le_less_trans)
      then have "q + 52 < e + 53" by (simp only: pow2_less_iff)
      then show ?thesis by simp
    qed
  qed
  then obtain d where d: "e = q + int d" by (metis zle_iff_zadd)
  have e: "pow2 e = pow2 q * 2 ^ d"
    unfolding d pow2_add by (simp add: pow2_def)
  have "a / pow2 q = of_int (\<bar>m\<bar> * 2 ^ d)"
    unfolding a e by simp
  then have "of_int (roundHalfEven (a / pow2 q)) * pow2 q = of_int (\<bar>m\<bar> * 2 ^ d) * pow2 q"
    by (simp only: roundHalfEven_of_int)
  also have "\<dots> = a" unfolding a e by simp
  finally have r: "of_int (roundHalfEven (a / pow2 q)) * pow2 q = a" .
  have "pow2 (e + 53) \<le> pow2 1024" using hi by simp
  with a_lt have "a < pow2 1024" by (rule less_le_trans)
  then have "\<not> pow2 1024 \<le> a" by (simp only: not_le)
  then have "round64 x = Fin (if 0 < x then a else - a)"
    unfolding round64_def Let_def a_def [symmetric] q_def [symmetric] r by simp
  also have "(if 0 < x then a else - a) = x" by (simp add: a_def)
  finally show ?thesis by (simp add: x_def)
qed

lemma round64_int:
  assumes "x \<in> \<int>" and "\<bar>x\<bar> < 9007199254740992"
  shows "round64 x = Fin x"
proof -
  from assms(1) obtain m where x: "x = of_int m" by (auto elim: Ints_cases)
  with assms(2) have "\<bar>m\<bar> < 2 ^ 53" by (simp flip: of_int_abs)
  from round64_exact [OF this, of 0] show ?thesis by (simp add: x pow2_def)
qed

lemma round64_overflow:
  assumes "pow2 1024 \<le> \<bar>x\<bar>"
  shows "round64 x = signedInf (0 < x)"
proof -
  let ?a = "\<bar>x\<bar>"
  have "quantumSearch ?a (Suc 2045) = int 2045 - 1073"
    using assms by (simp only: quantumSearch.simps) simp
  then have q: "quantum ?a = 972" by (simp add: quantum_def)
  have "pow2 1024 = pow2 52 * pow2 972" by (simp flip: pow2_add)
  with assms have "pow2 52 \<le> ?a / pow2 972" by (simp add: pos_le_divide_eq)
  then have "of_int (2 ^ 52) \<le> ?a / pow2 972" by (simp add: pow2_def)
  then have "(2 ^ 52 :: int) \<le> \<lfloor>?a / pow2 972\<rfloor>" by (simp only: le_floor_iff)
  with roundHalfEven_ge_floor [of "?a / pow2 972"]
  have "(2 ^ 52 :: int) \<le> roundHalfEven (?a / pow2 972)" by linarith
  then have "(of_int (2 ^ 52) :: real) \<le> of_int (roundHalfEven (?a / pow2 972))"
    by (simp only: of_int_le_iff)
  then have "pow2 52 * pow2 972 \<le> of_int (roundHalfEven (?a / pow2 972)) * pow2 972"
    by (simp add: pow2_def)
  then have "pow2 1024 \<le> of_int (roundHalfEven (?a / pow2 972)) * pow2 972"
    by (simp flip: pow2_add)
  then show ?thesis
    unfolding round64_def Let_def q by simp
qed


lemma round64_zero [simp]: "round64 0 = Fin 0"
  using round64_int [of 0] by simp

lemma round64_half: "round64 (1 / 2) = Fin (1 / 2)"
  using round64_exact [of 1 "- 1"] by (simp add: pow2_def)

lemma round64_quarters: "round64 (1 / 4) = Fin (1 / 4)" "round64 (3 / 4) = Fin (3 / 4)"
  using round64_exact [of 1 "- 2"] round64_exact [of 3 "- 2"] by (simp_all add: pow2_def)

lemma jadd_NaN_right [simp]: "jadd d NaN = NaN"
  by (cases d) simp_all

lemma jadd_not_NaN: "jadd d c \<noteq> NaN \<Longrightarrow> d \<noteq> NaN"
  by (cases d) simp_all

lemma truthy_or_zero: "d \<noteq> NaN \<Longrightarrow> (if numTruthy d then d else Fin 0) = d"
  by (cases d) simp_all

section \<open>Auxiliary lemmas: the accumulator object\<close>

lemma map_of_putProp: "map_of (putProp bs k v) = (map_of bs)(k \<mapsto> v)"
  by (induction bs) auto

lemma keys_putProp: "keys (putProp bs k v) = insert k (keys bs)"
  by (induction bs) (auto simp: keys_def)

lemma distinct_putProp: "distinct (map fst bs) \<Longrightarrow> distinct (map fst (putProp bs k v))"
proof (induction bs)
  case Nil
  then show ?case by simp
next
  case (Cons p ps)
  have "fst ` set (putProp ps k v) = insert k (fst ` set ps)"
    using keys_putProp [of ps k v] by (simp add: keys_def)
  with Cons show ?case by auto
qed

lemma set_putProp: "set (putProp bs k v) \<subseteq> insert (k, v) (set bs)"
  by (induction bs) auto

lemma map_of_setProp: "map_of (setProp bs k v) = setPropM (map_of bs) k v"
  by (simp add: setProp_def setPropM_def map_of_putProp)

lemma keys_setProp:
  "keys (setProp bs k v) = (if k = ''__proto__'' then keys bs else insert k (keys bs))"
  by (simp add: setProp_def keys_putProp)

lemma distinct_setProp: "distinct (map fst bs) \<Longrightarrow> distinct (map fst (setProp bs k v))"
  by (simp add: setProp_def distinct_putProp)

lemma set_setProp: "set (setProp bs k v) \<subseteq> insert (k, v) (set bs)"
  using set_putProp [of bs k v] by (auto simp: setProp_def)

lemma getOrZero_map_of: "getOrZero bs k = getOrZeroM (map_of bs) k"
  by (simp add: getOrZero_def getOrZeroM_def)

lemma proto_not_in_keys_setProp: "''__proto__'' \<notin> keys bs \<Longrightarrow> ''__proto__'' \<notin> keys (setProp bs k v)"
  by (auto simp: keys_setProp)

subsection \<open>Enumeration order\<close>

lemma map_snd_indexed:
  "map snd (List.map_filter indexed obj) = filter (\<lambda>entry. arrayIndex (fst entry) \<noteq> None) obj"
  by (induction obj) (auto simp: List.map_filter_simps indexed_def split: option.splits)

lemma mset_objectEntries [simp]: "mset (objectEntries obj) = mset obj"
proof -
  have "mset (map snd (sort_key fst (List.map_filter indexed obj))) =
        mset (map snd (List.map_filter indexed obj))"
    by (simp only: mset_map mset_sort)
  then show ?thesis
    by (simp add: objectEntries_def map_snd_indexed not_None_eq [symmetric] del: not_None_eq)
qed

lemma set_objectEntries [simp]: "set (objectEntries obj) = set obj"
  using mset_objectEntries [of obj] by (metis set_mset_mset)

lemma keys_objectEntries [simp]: "keys (objectEntries obj) = keys obj"
  by (simp add: keys_def)

lemma distinct_objectEntries:
  "distinct (map fst obj) \<Longrightarrow> distinct (map fst (objectEntries obj))"
proof -
  have "mset (map fst (objectEntries obj)) = mset (map fst obj)"
    by (simp only: mset_map mset_objectEntries)
  then show "distinct (map fst obj) \<Longrightarrow> ?thesis"
    by (metis mset_eq_imp_distinct_iff)
qed

lemma arrayIndex_letter:
  "\<not> isDigit c \<Longrightarrow> arrayIndex (c # cs) = None"
  by (simp add: arrayIndex_def)

lemma objectEntries_no_index:
  "list_all (\<lambda>entry. arrayIndex (fst entry) = None) obj \<Longrightarrow> objectEntries obj = obj"
proof -
  assume a: "list_all (\<lambda>entry. arrayIndex (fst entry) = None) obj"
  then have "List.map_filter indexed obj = []"
    by (induction obj) (simp_all add: List.map_filter_simps indexed_def)
  moreover from a have "filter (\<lambda>entry. arrayIndex (fst entry) = None) obj = obj"
    by (induction obj) simp_all
  ultimately show ?thesis by (simp add: objectEntries_def)
qed

subsection \<open>Keys written by the engine\<close>

lemma keys_payerStep:
  "keys (payerStep me c a cons bals entry) =
     keys bals \<union> ((if fst entry = me \<and> cons \<noteq> me then {cons} else {})
               \<union> (if fst entry \<noteq> me \<and> cons = me then {fst entry} else {})) - {''__proto__''}
               \<union> (keys bals \<inter> {''__proto__''})"
  by (auto simp: payerStep_def Let_def keys_setProp)

lemma distinct_payerStep:
  "distinct (map fst bals) \<Longrightarrow> distinct (map fst (payerStep me c a cons bals entry))"
  by (simp add: payerStep_def Let_def distinct_setProp)

lemma proto_payerStep:
  "''__proto__'' \<notin> keys bals \<Longrightarrow> ''__proto__'' \<notin> keys (payerStep me c a cons bals entry)"
  by (simp add: payerStep_def Let_def proto_not_in_keys_setProp)

lemma keys_payerStep':
  "''__proto__'' \<notin> keys bals \<Longrightarrow>
   keys (payerStep me c a cons bals entry) =
     keys bals \<union> ((if fst entry = me \<and> cons \<noteq> me then {cons} else {})
               \<union> (if fst entry \<noteq> me \<and> cons = me then {fst entry} else {})) - {''__proto__''}"
  by (auto simp: keys_payerStep)

lemma proto_consumerStep:
  "''__proto__'' \<notin> keys bals \<Longrightarrow> ''__proto__'' \<notin> keys (consumerStep me c a payers bals cons)"
  unfolding consumerStep_def
  by (induction payers arbitrary: bals) (simp_all add: proto_payerStep)

lemma keys_consumerStep:
  "''__proto__'' \<notin> keys bals \<Longrightarrow>
   keys (consumerStep me c a payers bals cons) =
     keys bals \<union> ((if cons \<noteq> me \<and> me \<in> keys payers then {cons} else {})
               \<union> (if cons = me then keys payers - {me} else {})) - {''__proto__''}"
  unfolding consumerStep_def
proof (induction payers arbitrary: bals)
  case Nil
  then show ?case by (auto simp: keys_def)
next
  case (Cons p ps)
  from Cons.prems have "''__proto__'' \<notin> keys (payerStep me c a cons bals p)"
    by (rule proto_payerStep)
  from Cons.IH [OF this] show ?case
    using Cons.prems by (simp add: keys_payerStep') (auto simp: keys_def)
qed

lemma distinct_consumerStep:
  "distinct (map fst bals) \<Longrightarrow> distinct (map fst (consumerStep me c a payers bals cons))"
  unfolding consumerStep_def
  by (induction payers arbitrary: bals) (simp_all add: distinct_payerStep)

lemma proto_foldl_consumerStep:
  "''__proto__'' \<notin> keys bals \<Longrightarrow>
   ''__proto__'' \<notin> keys (foldl (consumerStep me c a payers) bals consumers)"
  by (induction consumers arbitrary: bals) (simp_all add: proto_consumerStep)

lemma keys_foldl_consumerStep:
  "''__proto__'' \<notin> keys bals \<Longrightarrow>
   keys (foldl (consumerStep me c a payers) bals consumers) =
     keys bals \<union> ({x \<in> set consumers. x \<noteq> me \<and> me \<in> keys payers}
               \<union> {p \<in> keys payers. p \<noteq> me \<and> me \<in> set consumers}) - {''__proto__''}"
proof (induction consumers arbitrary: bals)
  case Nil
  then show ?case by auto
next
  case (Cons x xs)
  from Cons.prems have "''__proto__'' \<notin> keys (consumerStep me c a payers bals x)"
    by (rule proto_consumerStep)
  from Cons.IH [OF this] show ?case
    using Cons.prems by (simp add: keys_consumerStep) auto
qed

lemma proto_expenseStep:
  "''__proto__'' \<notin> keys bals \<Longrightarrow> ''__proto__'' \<notin> keys (expenseStep me bals e)"
  by (simp add: expenseStep_def Let_def proto_foldl_consumerStep)

lemma keys_expenseStep:
  "''__proto__'' \<notin> keys bals \<Longrightarrow>
   keys (expenseStep me bals e) = keys bals \<union> (owedBy me e \<union> owedTo me e) - {''__proto__''}"
  by (simp add: expenseStep_def Let_def keys_foldl_consumerStep owedBy_def owedTo_def)

lemma distinct_expenseStep:
  "distinct (map fst bals) \<Longrightarrow> distinct (map fst (expenseStep me bals e))"
proof -
  have "distinct (map fst bals) \<Longrightarrow>
        distinct (map fst (foldl (consumerStep me c a payers) bals consumers))"
    for c a payers consumers
    by (induction consumers arbitrary: bals) (simp_all add: distinct_consumerStep)
  then show "distinct (map fst bals) \<Longrightarrow> ?thesis"
    by (simp add: expenseStep_def Let_def)
qed

lemma proto_foldl_expenseStep:
  "''__proto__'' \<notin> keys bals \<Longrightarrow> ''__proto__'' \<notin> keys (foldl (expenseStep me) bals es)"
  by (induction es arbitrary: bals) (simp_all add: proto_expenseStep)

lemma keys_foldl_expenseStep:
  "''__proto__'' \<notin> keys bals \<Longrightarrow>
   keys (foldl (expenseStep me) bals es) =
     keys bals \<union> (\<Union>e \<in> set es. owedBy me e \<union> owedTo me e) - {''__proto__''}"
proof (induction es arbitrary: bals)
  case Nil
  then show ?case by auto
next
  case (Cons e es)
  from Cons.prems have "''__proto__'' \<notin> keys (expenseStep me bals e)"
    by (rule proto_expenseStep)
  from Cons.IH [OF this] show ?case
    using Cons.prems by (simp add: keys_expenseStep) auto
qed

lemma distinct_foldl_expenseStep:
  "distinct (map fst bals) \<Longrightarrow> distinct (map fst (foldl (expenseStep me) bals es))"
  by (induction es arbitrary: bals) (simp_all add: distinct_expenseStep)

lemma keys_foldl_initFriend:
  "keys (foldl initFriend bals fs) =
     keys bals \<union> ({profile_id f | f. f \<in> set fs \<and> notMe f} - {''__proto__''})"
  by (induction fs arbitrary: bals) (auto simp: initFriend_def keys_setProp)

lemma keys_initBals:
  "keys (initBals fs) = {profile_id f | f. f \<in> set fs \<and> notMe f} - {''__proto__''}"
  by (simp add: initBals_def keys_foldl_initFriend) (simp add: keys_def)

lemma proto_initBals: "''__proto__'' \<notin> keys (initBals fs)"
  by (simp add: keys_initBals)

lemma distinct_initBals: "distinct (map fst (initBals fs))"
proof -
  have "distinct (map fst bals) \<Longrightarrow> distinct (map fst (foldl initFriend bals fs))" for bals
    by (induction fs arbitrary: bals) (simp_all add: initFriend_def distinct_setProp)
  then show ?thesis by (simp add: initBals_def)
qed

lemma foldl_initFriend_zero:
  "\<forall>entry\<in>set bals. snd entry = NumVal (Fin 0) \<Longrightarrow>
   \<forall>entry\<in>set (foldl initFriend bals fs). snd entry = NumVal (Fin 0)"
proof (induction fs arbitrary: bals)
  case Nil
  then show ?case by simp
next
  case (Cons f fs)
  have "\<forall>entry\<in>set (initFriend bals f). snd entry = NumVal (Fin 0)"
    using Cons.prems set_setProp [of bals "profile_id f" "NumVal (Fin 0)"]
    by (auto simp: initFriend_def)
  then show ?case using Cons.IH by simp
qed

lemma initBals_zero: "\<forall>entry\<in>set (initBals fs). snd entry = NumVal (Fin 0)"
  unfolding initBals_def by (rule foldl_initFriend_zero) simp

lemma outputIds_balances:
  "outputIds (balances fs (Some up) es) =
     ({profile_id f | f. f \<in> set fs \<and> notMe f} \<union>
      (\<Union>e\<in>set es. owedBy (profile_id up) e \<union> owedTo (profile_id up) e)) - {''__proto__''}"
proof -
  have "outputIds (map toBalance obj) = keys obj" for obj
    by (simp add: outputIds_def keys_def image_image toBalance_def)
  then show ?thesis
    by (auto simp: balances_def keys_foldl_expenseStep [OF proto_initBals] keys_initBals)
qed

section \<open>Auxiliary lemmas: the running sum of one friend\<close>

lemma tracks_plus:
  assumes "tracks bals f d" and "f \<notin> set objectPrototypeKeys"
  shows "tracks (setProp bals f (plusChunk (getOrZero bals f) c)) f (jadd d c)"
proof -
  from assms(2) have np: "f \<noteq> ''__proto__''" by (auto simp: objectPrototypeKeys_def)
  show ?thesis
    unfolding tracks_def
  proof
    assume "jadd d c \<noteq> NaN"
    then have d: "d \<noteq> NaN" by (rule jadd_not_NaN)
    with assms(1) consider "map_of bals f = None" "d = Fin 0" | "map_of bals f = Some (NumVal d)"
      by (auto simp: tracks_def)
    then have "getOrZero bals f = Number d"
    proof cases
      case 1
      with assms(2) show ?thesis by (simp add: getOrZero_def)
    next
      case 2
      with d show ?thesis by (simp add: getOrZero_def truthy_or_zero)
    qed
    then have "map_of (setProp bals f (plusChunk (getOrZero bals f) c)) f = Some (NumVal (jadd d c))"
      using np by (simp add: map_of_setProp setPropM_def)
    then show "(map_of (setProp bals f (plusChunk (getOrZero bals f) c)) f = None \<and> jadd d c = Fin 0) \<or>
               map_of (setProp bals f (plusChunk (getOrZero bals f) c)) f = Some (NumVal (jadd d c))"
      by simp
  qed
qed

lemma tracks_minus:
  assumes "tracks bals f d" and "f \<notin> set objectPrototypeKeys"
  shows "tracks (setProp bals f (minusChunk (getOrZero bals f) c)) f (jadd d (jneg c))"
proof -
  from assms(2) have np: "f \<noteq> ''__proto__''" by (auto simp: objectPrototypeKeys_def)
  show ?thesis
    unfolding tracks_def
  proof
    assume "jadd d (jneg c) \<noteq> NaN"
    then have d: "d \<noteq> NaN" by (rule jadd_not_NaN)
    with assms(1) consider "map_of bals f = None" "d = Fin 0" | "map_of bals f = Some (NumVal d)"
      by (auto simp: tracks_def)
    then have "getOrZero bals f = Number d"
    proof cases
      case 1
      with assms(2) show ?thesis by (simp add: getOrZero_def)
    next
      case 2
      with d show ?thesis by (simp add: getOrZero_def truthy_or_zero)
    qed
    then have "map_of (setProp bals f (minusChunk (getOrZero bals f) c)) f =
               Some (NumVal (jadd d (jneg c)))"
      using np by (simp add: map_of_setProp setPropM_def jsub_def)
    then show "(map_of (setProp bals f (minusChunk (getOrZero bals f) c)) f = None \<and>
                jadd d (jneg c) = Fin 0) \<or>
               map_of (setProp bals f (minusChunk (getOrZero bals f) c)) f =
               Some (NumVal (jadd d (jneg c)))"
      by simp
  qed
qed

lemma tracks_other: "k \<noteq> f \<Longrightarrow> tracks bals f d \<Longrightarrow> tracks (setProp bals k v) f d"
  by (simp add: tracks_def map_of_setProp setPropM_def)

lemma tracks_payerStep:
  assumes "tracks bals f d" and "f \<notin> set objectPrototypeKeys"
  shows "tracks (payerStep me c a cons bals entry) f (foldl jadd d (pairAdjust me c a entry cons f))"
proof -
  consider (plus) "fst entry = me" "cons \<noteq> me" | (minus) "fst entry \<noteq> me" "cons = me"
    | (none) "\<not> (fst entry = me \<and> cons \<noteq> me)" "\<not> (fst entry \<noteq> me \<and> cons = me)"
    by blast
  then show ?thesis
  proof cases
    case plus
    show ?thesis
    proof (cases "f = cons")
      case True
      with plus tracks_plus [OF assms, of "jmul c (jdiv (snd entry) a)"] show ?thesis
        by (simp add: payerStep_def Let_def pairAdjust_def)
    next
      case False
      with plus tracks_other [OF _ assms(1), of cons] show ?thesis
        by (simp add: payerStep_def Let_def pairAdjust_def)
    qed
  next
    case minus
    show ?thesis
    proof (cases "f = fst entry")
      case True
      with minus tracks_minus [OF assms, of "jmul c (jdiv (snd entry) a)"] show ?thesis
        by (simp add: payerStep_def Let_def pairAdjust_def)
    next
      case False
      with minus tracks_other [OF _ assms(1), of "fst entry"] show ?thesis
        by (simp add: payerStep_def Let_def pairAdjust_def)
    qed
  next
    case none
    with assms(1) show ?thesis
      by (auto simp: payerStep_def Let_def pairAdjust_def)
  qed
qed

lemma tracks_consumerStep:
  assumes "tracks bals f d" and "f \<notin> set objectPrototypeKeys"
  shows "tracks (consumerStep me c a payers bals cons) f
           (foldl jadd d (concat (map (\<lambda>entry. pairAdjust me c a entry cons f) payers)))"
  using assms(1) unfolding consumerStep_def
proof (induction payers arbitrary: bals d)
  case Nil
  then show ?case by simp
next
  case (Cons entry payers)
  from Cons.prems assms(2)
  have "tracks (payerStep me c a cons bals entry) f (foldl jadd d (pairAdjust me c a entry cons f))"
    by (rule tracks_payerStep)
  from Cons.IH [OF this] show ?case by simp
qed

lemma tracks_foldl_consumerStep:
  assumes "tracks bals f d" and "f \<notin> set objectPrototypeKeys"
  shows "tracks (foldl (consumerStep me c a payers) bals consumers) f
           (foldl jadd d (concat (map (\<lambda>cons.
              concat (map (\<lambda>entry. pairAdjust me c a entry cons f) payers)) consumers)))"
  using assms(1)
proof (induction consumers arbitrary: bals d)
  case Nil
  then show ?case by simp
next
  case (Cons x xs)
  from Cons.prems assms(2)
  have "tracks (consumerStep me c a payers bals x) f
          (foldl jadd d (concat (map (\<lambda>entry. pairAdjust me c a entry x f) payers)))"
    by (rule tracks_consumerStep)
  from Cons.IH [OF this] show ?case by simp
qed

lemma pairAdjust_spec:
  "pairAdjust me (jdiv (amount e) (Fin (real (length (splitBetween e))))) (amount e) entry cons f =
   spec_adjustment me e entry cons f"
  by (simp add: pairAdjust_def spec_adjustment_def spec_debtChunk_def)

lemma tracks_expenseStep:
  assumes "tracks bals f d" and "f \<notin> set objectPrototypeKeys"
  shows "tracks (expenseStep me bals e) f (foldl jadd d (spec_adjustments me [e] f))"
  using tracks_foldl_consumerStep [OF assms,
      of me "jdiv (amount e) (Fin (real (length (splitBetween e))))" "amount e" "paidBy e"
         "splitBetween e"]
  by (simp add: expenseStep_def Let_def spec_adjustments_def pairAdjust_spec)

lemma spec_adjustments_Cons:
  "spec_adjustments me (e # es) f = spec_adjustments me [e] f @ spec_adjustments me es f"
  by (simp add: spec_adjustments_def)

lemma tracks_foldl_expenseStep:
  assumes "tracks bals f d" and "f \<notin> set objectPrototypeKeys"
  shows "tracks (foldl (expenseStep me) bals es) f (foldl jadd d (spec_adjustments me es f))"
  using assms(1)
proof (induction es arbitrary: bals d)
  case Nil
  then show ?case by (simp add: spec_adjustments_def)
next
  case (Cons e es)
  from Cons.prems assms(2)
  have "tracks (expenseStep me bals e) f (foldl jadd d (spec_adjustments me [e] f))"
    by (rule tracks_expenseStep)
  from Cons.IH [OF this] show ?case
    by (simp add: spec_adjustments_Cons [of me e es])
qed

lemma tracks_initBals: "tracks (initBals fs) f (Fin 0)"
proof (cases "map_of (initBals fs) f")
  case None
  then show ?thesis by (simp add: tracks_def)
next
  case (Some v)
  then have "(f, v) \<in> set (initBals fs)" by (rule map_of_SomeD)
  with initBals_zero [of fs] have "v = NumVal (Fin 0)" by auto
  with Some show ?thesis by (simp add: tracks_def)
qed

lemma balances_entry:
  assumes "b \<in> set (balances fs (Some up) es)"
  shows "map_of (foldl (expenseStep (profile_id up)) (initBals fs) es) (friendId b) =
         Some (balance_amount b)"
proof -
  let ?final = "foldl (expenseStep (profile_id up)) (initBals fs) es"
  from assms obtain k v where kv: "(k, v) \<in> set ?final" and b: "b = toBalance (k, v)"
    by (auto simp: balances_def)
  have "distinct (map fst ?final)"
    by (rule distinct_foldl_expenseStep) (rule distinct_initBals)
  with kv have "map_of ?final k = Some v" by simp
  then show ?thesis by (simp add: b toBalance_def)
qed

section \<open>Auxiliary lemmas: entries the expenses do not touch\<close>

lemma map_of_payerStep_other:
  "f \<noteq> cons \<or> fst entry \<noteq> me \<or> cons = me \<Longrightarrow> f \<noteq> fst entry \<or> fst entry = me \<or> cons \<noteq> me \<Longrightarrow>
   map_of (payerStep me c a cons bals entry) f = map_of bals f"
  by (auto simp: payerStep_def Let_def map_of_setProp setPropM_def)

lemma map_of_consumerStep_other:
  "f \<noteq> cons \<Longrightarrow> f \<notin> keys payers \<Longrightarrow>
   map_of (consumerStep me c a payers bals cons) f = map_of bals f"
  unfolding consumerStep_def
proof (induction payers arbitrary: bals)
  case Nil
  then show ?case by simp
next
  case (Cons p ps)
  from Cons.prems have "f \<noteq> fst p" and rest: "f \<notin> keys ps" by (auto simp: keys_def)
  with Cons.prems(1) have "map_of (payerStep me c a cons bals p) f = map_of bals f"
    by (simp add: map_of_payerStep_other)
  with Cons.IH [OF Cons.prems(1) rest] show ?case by simp
qed

lemma map_of_expenseStep_other:
  assumes "f \<notin> set (splitBetween e)" and "f \<notin> keys (paidBy e)"
  shows "map_of (expenseStep me bals e) f = map_of bals f"
proof -
  have "f \<notin> set consumers \<Longrightarrow>
        map_of (foldl (consumerStep me c a (paidBy e)) bals consumers) f = map_of bals f"
    for c a consumers bals
    by (induction consumers arbitrary: bals) (simp_all add: map_of_consumerStep_other assms(2))
  with assms(1) show ?thesis by (simp add: expenseStep_def Let_def)
qed

lemma map_of_foldl_expenseStep_other:
  "\<forall>e\<in>set es. f \<notin> set (splitBetween e) \<and> f \<notin> keys (paidBy e) \<Longrightarrow>
   map_of (foldl (expenseStep me) bals es) f = map_of bals f"
  by (induction es arbitrary: bals) (simp_all add: map_of_expenseStep_other)

lemma one_entry_per_key:
  "distinct (map fst obj) \<Longrightarrow> k \<in> keys obj \<Longrightarrow>
   length (filter (\<lambda>entry. fst entry = k) obj) = 1"
proof (induction obj)
  case Nil
  then show ?case by (simp add: keys_def)
next
  case (Cons p ps)
  show ?case
  proof (cases "fst p = k")
    case True
    with Cons.prems(1) have "k \<notin> fst ` set ps" by auto
    then have "filter (\<lambda>entry. fst entry = k) ps = []"
      by (auto simp: filter_empty_conv)
    with True show ?thesis by simp
  next
    case False
    with Cons.prems have "distinct (map fst ps)" and "k \<in> keys ps" by (auto simp: keys_def)
    with Cons.IH False show ?thesis by simp
  qed
qed

lemma filter_toBalance:
  "length (filter (\<lambda>b. friendId b = k) (map toBalance obj)) =
   length (filter (\<lambda>entry. fst entry = k) obj)"
  by (induction obj) (simp_all add: toBalance_def)

lemma expenseStep_empty_split: "splitBetween e = [] \<Longrightarrow> expenseStep me bals e = bals"
  by (simp add: expenseStep_def)

section \<open>Auxiliary lemmas: the engine on maps\<close>

lemma map_of_payerStep:
  "map_of (payerStep me c a cons bals entry) = payerStepM me c a cons entry (map_of bals)"
  by (simp add: payerStep_def payerStepM_def Let_def map_of_setProp getOrZero_map_of)

lemma map_of_consumerStep:
  "map_of (consumerStep me c a payers bals cons) = fold (payerStepM me c a cons) payers (map_of bals)"
  unfolding consumerStep_def
  by (induction payers arbitrary: bals) (simp_all add: map_of_payerStep)

lemma map_of_expenseStep:
  "map_of (expenseStep me bals e) = expenseStepM me e (map_of bals)"
proof -
  have "map_of (foldl (consumerStep me c a payers) bals consumers) =
        fold (\<lambda>cons. fold (payerStepM me c a cons) payers) consumers (map_of bals)"
    for c a payers consumers
    by (induction consumers arbitrary: bals) (simp_all add: map_of_consumerStep)
  then show ?thesis by (simp add: expenseStep_def expenseStepM_def Let_def)
qed

lemma map_of_foldl_expenseStep:
  "map_of (foldl (expenseStep me) bals es) = fold (expenseStepM me) es (map_of bals)"
  by (induction es arbitrary: bals) (simp_all add: map_of_expenseStep)

lemma payerStepM_commute:
  assumes "fst x \<noteq> fst y"
  shows "payerStepM me c a cons x (payerStepM me c a cons y m) =
         payerStepM me c a cons y (payerStepM me c a cons x m)"
proof (cases "cons = me")
  case True
  with assms show ?thesis
    by (auto simp: payerStepM_def Let_def setPropM_def getOrZeroM_def fun_upd_twist)
next
  case False
  with assms show ?thesis
    by (auto simp: payerStepM_def Let_def)
qed

lemma fold_payerStepM_permuted:
  assumes "distinct (map fst payers)" and "mset payers = mset payers'"
  shows "fold (payerStepM me c a cons) payers = fold (payerStepM me c a cons) payers'"
proof (rule fold_multiset_equiv)
  show "mset payers = mset payers'" by fact
next
  fix x y
  assume "x \<in> set payers" and "y \<in> set payers"
  show "payerStepM me c a cons x \<circ> payerStepM me c a cons y =
        payerStepM me c a cons y \<circ> payerStepM me c a cons x"
  proof (cases "x = y")
    case True
    then show ?thesis by simp
  next
    case False
    from assms(1) have "inj_on fst (set payers)" by (simp add: distinct_map)
    with False \<open>x \<in> set payers\<close> \<open>y \<in> set payers\<close> have "fst x \<noteq> fst y"
      by (auto dest: inj_onD)
    then show ?thesis by (auto simp: fun_eq_iff payerStepM_commute)
  qed
qed

lemma expenseStepM_sameContent:
  assumes "sameContent e e'" and "distinct (map fst (paidBy e))"
  shows "expenseStepM me e = expenseStepM me e'"
proof -
  from assms(1) have eq: "amount e = amount e'" "splitBetween e = splitBetween e'"
    and perm: "mset (paidBy e) = mset (paidBy e')"
    by (simp_all add: sameContent_def)
  have "fold (payerStepM me c a cons) (paidBy e) = fold (payerStepM me c a cons) (paidBy e')"
    for c a cons
    using assms(2) perm by (rule fold_payerStepM_permuted)
  then show ?thesis
    unfolding expenseStepM_def eq by presburger
qed

lemma fold_expenseStepM_sameContent:
  assumes "list_all2 sameContent es es'"
    and "\<forall>e\<in>set es. distinct (map fst (paidBy e))"
  shows "fold (expenseStepM me) es m = fold (expenseStepM me) es' m"
  using assms
proof (induction es es' arbitrary: m rule: list_all2_induct)
  case Nil
  then show ?case by simp
next
  case (Cons e es e' es')
  from Cons.hyps(1) Cons.prems have "expenseStepM me e = expenseStepM me e'"
    by (simp add: expenseStepM_sameContent)
  moreover from Cons.prems have "\<forall>e\<in>set es. distinct (map fst (paidBy e))" by simp
  ultimately show ?case using Cons.IH by simp
qed

lemma mset_eq_of_map_of:
  assumes "distinct (map fst xs)" and "distinct (map fst ys)" and "map_of xs = map_of ys"
  shows "mset xs = mset ys"
proof -
  have "set xs = set ys"
  proof (rule set_eqI)
    fix p :: "'a \<times> 'b"
    obtain k v where p: "p = (k, v)" by (cases p)
    have "(k, v) \<in> set xs \<longleftrightarrow> map_of xs k = Some v" using assms(1) by simp
    also have "\<dots> \<longleftrightarrow> map_of ys k = Some v" by (simp add: assms(3))
    also have "\<dots> \<longleftrightarrow> (k, v) \<in> set ys" using assms(2) by simp
    finally show "p \<in> set xs \<longleftrightarrow> p \<in> set ys" by (simp add: p)
  qed
  moreover from assms(1) have "distinct xs" by (rule distinct_map [THEN iffD1, THEN conjunct1])
  moreover from assms(2) have "distinct ys" by (rule distinct_map [THEN iffD1, THEN conjunct1])
  ultimately show ?thesis by (simp add: set_eq_iff_mset_eq_distinct)
qed

lemma balances_sameContent:
  assumes "list_all2 sameContent es es'"
    and "\<forall>e\<in>set es. distinct (map fst (paidBy e))"
  shows "mset (balances fs u es) = mset (balances fs u es')"
proof (cases u)
  case None
  then show ?thesis by (simp add: balances_def)
next
  case (Some up)
  let ?l = "foldl (expenseStep (profile_id up)) (initBals fs) es"
  let ?r = "foldl (expenseStep (profile_id up)) (initBals fs) es'"
  have "map_of ?l = map_of ?r"
    by (simp add: map_of_foldl_expenseStep fold_expenseStepM_sameContent [OF assms])
  moreover have "distinct (map fst ?l)" "distinct (map fst ?r)"
    by (rule distinct_foldl_expenseStep, rule distinct_initBals)+
  ultimately have "mset ?l = mset ?r" by (intro mset_eq_of_map_of)
  then have "mset (map toBalance (objectEntries ?l)) = mset (map toBalance (objectEntries ?r))"
    by (simp only: mset_map mset_objectEntries)
  with Some show ?thesis by (simp add: balances_def)
qed

section \<open>Auxiliary lemmas: rounding that is not exact\<close>

lemma quantumSearch_skip:
  assumes "a < pow2 (int k - 1021)"
  shows "quantumSearch a (k + n) = quantumSearch a k"
proof (induction n)
  case 0
  then show ?case by simp
next
  case (Suc n)
  have "pow2 (int k - 1021) \<le> pow2 (int (k + n) - 1021)" by simp
  with assms have "a < pow2 (int (k + n) - 1021)" by (rule less_le_trans)
  then have "\<not> pow2 (int (k + n) - 1021) \<le> a" by (simp only: not_le)
  with Suc show ?case by simp
qed

lemma quantum_eq:
  assumes lo: "pow2 (e + 52) \<le> a" and hi: "a < pow2 (e + 53)"
    and range: "- 1073 \<le> e" "e \<le> 972"
  shows "quantum a = e"
proof -
  define k where "k = nat (e + 1073)"
  have e: "e = int k - 1073" using range by (simp add: k_def)
  have k: "k < 2046" using range by (simp add: k_def)
  then obtain n where n: "2046 = Suc k + n" by (metis add_Suc less_iff_Suc_add)
  have "a < pow2 (int (Suc k) - 1021)" using hi by (simp add: e)
  then have "quantumSearch a (Suc k + n) = quantumSearch a (Suc k)" by (rule quantumSearch_skip)
  moreover have "pow2 (int k - 1021) \<le> a" using lo by (simp add: e)
  then have "quantumSearch a (Suc k) = int k - 1073" by simp
  ultimately show ?thesis by (simp add: quantum_def n e)
qed

lemma roundHalfEven_up:
  assumes "1 / 2 < r" and "r < 1"
  shows "roundHalfEven (of_int z + r) = z + 1"
proof -
  have "\<lfloor>of_int z + r\<rfloor> = z" using assms by (intro floor_unique) simp_all
  with assms show ?thesis by (simp add: roundHalfEven_def Let_def)
qed

lemma round64_sliver:
  "round64 (double_0_0101 - double_0_0001) = literal_0_01"
proof -
  define a :: real where "a = 737869762948382035 / 73786976294838206464"
  have d: "double_0_0101 - double_0_0001 = a"
    by (simp add: double_0_0101_def double_0_0001_def a_def)
  have p59: "pow2 (- 59) = 1 / 576460752303423488" by (simp add: pow2_def)
  have "quantum a = - 59"
    by (rule quantum_eq) (simp_all add: a_def pow2_def)
  moreover have q: "a / pow2 (- 59) = of_int 5764607523034234 + 83 / 128"
    by (simp add: a_def p59)
  have "roundHalfEven (a / pow2 (- 59)) = 5764607523034235"
    unfolding q by (subst roundHalfEven_up) simp_all
  ultimately show ?thesis
    by (simp add: d round64_def Let_def p59 literal_0_01_def a_def abs_if pow2_def)
qed

section \<open>The examples of the specification\<close>

lemmas step_defs = expenseStep_def consumerStep_def payerStep_def setProp_def getOrZero_def
  objectPrototypeKeys_def jsub_def Let_def mkExpense_def
  round64_int round64_quarters round64_half

lemmas spec_defs = spec_owed_def spec_adjustments_def spec_adjustment_def spec_debtChunk_def
  mkExpense_def round64_int round64_quarters round64_half

lemmas output_defs = objectEntries_no_index arrayIndex_letter isDigit_def toBalance_def
  profileA_def

lemma balances_Some:
  "balances fs (Some up) es =
   map toBalance (objectEntries (foldl (expenseStep (profile_id up)) (initBals fs) es))"
  by (simp add: balances_def)

lemma init_ABC:
  "initBals friendsABC = [(''B'', NumVal (Fin 0)), (''C'', NumVal (Fin 0))]"
  by (simp add: initBals_def initFriend_def notMe_def setProp_def friendsABC_def mkFriend_def)

lemma init_A: "initBals [mkFriend ''A'' (Some True)] = []"
  by (simp add: initBals_def initFriend_def notMe_def mkFriend_def)

lemma init_AB:
  "initBals [mkFriend ''A'' (Some True), mkFriend ''B'' (Some False)] = [(''B'', NumVal (Fin 0))]"
  by (simp add: initBals_def initFriend_def notMe_def setProp_def mkFriend_def)

lemma step_dinner:
  "expenseStep ''A'' [(''B'', NumVal (Fin 0)), (''C'', NumVal (Fin 0))] dinner =
     [(''B'', NumVal (Fin 100)), (''C'', NumVal (Fin 100))]"
  by (simp add: step_defs dinner_def)

lemma step_taxi:
  "expenseStep ''A'' [(''B'', NumVal (Fin 100)), (''C'', NumVal (Fin 100))] taxi =
     [(''B'', NumVal (Fin 0)), (''C'', NumVal (Fin 100))]"
  "expenseStep ''A'' [(''B'', NumVal (Fin 0)), (''C'', NumVal (Fin 0))] taxi =
     [(''B'', NumVal (Fin (- 100))), (''C'', NumVal (Fin 0))]"
  by (simp_all add: step_defs taxi_def)

lemma step_gift:
  "expenseStep ''A'' [(''B'', NumVal (Fin 0)), (''C'', NumVal (Fin 0))] gift =
     [(''B'', NumVal (Fin 0)), (''C'', NumVal (Fin 0)),
      (''D'', NumVal (Fin (- 10))), (''E'', NumVal (Fin 30))]"
  by (simp add: step_defs gift_def)

lemma step_pooled:
  "expenseStep ''A'' [(''B'', NumVal (Fin 0)), (''C'', NumVal (Fin 0))] pooled =
     [(''B'', NumVal (Fin 0)), (''C'', NumVal (Fin 0)),
      (''D'', NumVal (Fin (- 60))), (''E'', NumVal (Fin (- 20)))]"
  "expenseStep ''A'' [(''B'', NumVal (Fin 0)), (''C'', NumVal (Fin 0))] pooledReordered =
     [(''B'', NumVal (Fin 0)), (''C'', NumVal (Fin 0)),
      (''E'', NumVal (Fin (- 20))), (''D'', NumVal (Fin (- 60)))]"
  by (simp_all add: step_defs pooled_def pooledReordered_def)

text \<open>
  \<open>A\<close> pays 300 for \<open>A\<close>, \<open>B\<close> and \<open>C\<close>: \<open>B\<close> and \<open>C\<close> owe 100 each. \<open>B\<close> then pays
  200 for \<open>A\<close> and \<open>B\<close>, which offsets the debt of \<open>B\<close>.
\<close>

lemma example_dinner:
  "balances friendsABC (Some profileA) [dinner] =
     [\<lparr>friendId = ''B'', balance_amount = NumVal (Fin 100)\<rparr>,
      \<lparr>friendId = ''C'', balance_amount = NumVal (Fin 100)\<rparr>]"
  by (simp add: balances_Some init_ABC step_dinner output_defs)

lemma example_taxi:
  "balances friendsABC (Some profileA) [taxi] =
     [\<lparr>friendId = ''B'', balance_amount = NumVal (Fin (- 100))\<rparr>,
      \<lparr>friendId = ''C'', balance_amount = NumVal (Fin 0)\<rparr>]"
  by (simp add: balances_Some init_ABC step_taxi output_defs)

lemma example_dinner_taxi:
  "balances friendsABC (Some profileA) [dinner, taxi] =
     [\<lparr>friendId = ''B'', balance_amount = NumVal (Fin 0)\<rparr>,
      \<lparr>friendId = ''C'', balance_amount = NumVal (Fin 100)\<rparr>]"
  by (simp add: balances_Some init_ABC step_dinner step_taxi output_defs)

text \<open>Two payers, one of them and one consumer outside the Friend collection.\<close>

lemma example_gift:
  "balances friendsABC (Some profileA) [gift] =
     [\<lparr>friendId = ''B'', balance_amount = NumVal (Fin 0)\<rparr>,
      \<lparr>friendId = ''C'', balance_amount = NumVal (Fin 0)\<rparr>,
      \<lparr>friendId = ''D'', balance_amount = NumVal (Fin (- 10))\<rparr>,
      \<lparr>friendId = ''E'', balance_amount = NumVal (Fin 30)\<rparr>]"
  by (simp add: balances_Some init_ABC step_gift output_defs)

text \<open>The enumeration order of the payers decides the order of the new entries.\<close>

lemma example_pooled:
  "balances friendsABC (Some up) [pooled] =
     [\<lparr>friendId = ''B'', balance_amount = NumVal (Fin 0)\<rparr>,
      \<lparr>friendId = ''C'', balance_amount = NumVal (Fin 0)\<rparr>,
      \<lparr>friendId = ''D'', balance_amount = NumVal (Fin (- 60))\<rparr>,
      \<lparr>friendId = ''E'', balance_amount = NumVal (Fin (- 20))\<rparr>]"
    "balances friendsABC (Some up) [pooledReordered] =
     [\<lparr>friendId = ''B'', balance_amount = NumVal (Fin 0)\<rparr>,
      \<lparr>friendId = ''C'', balance_amount = NumVal (Fin 0)\<rparr>,
      \<lparr>friendId = ''E'', balance_amount = NumVal (Fin (- 20))\<rparr>,
      \<lparr>friendId = ''D'', balance_amount = NumVal (Fin (- 60))\<rparr>]"
    if "profile_id up = ''A''"
  using that by (simp_all add: balances_Some init_ABC step_pooled output_defs)

text \<open>The same figures from the rule of the specification.\<close>

lemma example_spec_owed:
  "spec_owed ''A'' [dinner] ''B'' = Fin 100 \<and> spec_owed ''A'' [taxi] ''B'' = Fin (- 100) \<and>
   spec_owed ''A'' [dinner, taxi] ''B'' = Fin 0 \<and> spec_owed ''A'' [dinner, taxi] ''C'' = Fin 100 \<and>
   spec_owed ''A'' [gift] ''D'' = Fin (- 10) \<and> spec_owed ''A'' [gift] ''E'' = Fin 30"
  by (simp add: spec_defs dinner_def taxi_def gift_def)

text \<open>No profile loaded: the memo returns the empty array.\<close>

lemma example_no_profile: "balances friendsABC None [dinner, taxi] = []"
  by (simp add: balances_def)

text \<open>
  Keys that are array indices are enumerated first, in numeric order; \<^verbatim>\<open>007\<close> is not a
  canonical numeral and keeps its place among the other keys.
\<close>

lemma example_enumeration:
  "objectEntries [(''B'', NumVal (Fin 1)), (''10'', NumVal (Fin 2)), (''9'', NumVal (Fin 3)),
                  (''007'', NumVal (Fin 4))] =
     [(''9'', NumVal (Fin 3)), (''10'', NumVal (Fin 2)), (''B'', NumVal (Fin 1)),
      (''007'', NumVal (Fin 4))]"
  by (simp add: objectEntries_def indexed_def arrayIndex_def isDigit_def List.map_filter_simps
      decimalValue_def)

text \<open>
  A hundred split three ways is not a third of a hundred but the binary64 number nearest to
  it, \<^verbatim>\<open>33.333333333333336\<close>.
\<close>

lemma round64_third: "round64 (100 / 3) = Fin (4691249611844267 / 140737488355328)"
proof -
  define a :: real where "a = 100 / 3"
  have p47: "pow2 (- 47) = 1 / 140737488355328" by (simp add: pow2_def)
  have q: "quantum a = - 47"
    by (rule quantum_eq) (simp_all add: a_def pow2_def)
  have "a / pow2 (- 47) = of_int 4691249611844266 + 2 / 3"
    by (simp add: a_def p47)
  then have "roundHalfEven (a / pow2 (- 47)) = 4691249611844267"
    by (simp only: roundHalfEven_up [of "2 / 3"])
  with q have "round64 a = Fin (4691249611844267 / 140737488355328)"
    by (simp add: round64_def Let_def p47 a_def pow2_def)
  then show ?thesis by (simp add: a_def)
qed

lemma round64_third_fixed:
  "round64 (4691249611844267 / 140737488355328) = Fin (4691249611844267 / 140737488355328)"
  using round64_exact [of 4691249611844267 "- 47"] by (simp add: pow2_def)

lemma step_trio:
  "expenseStep ''A'' [(''B'', NumVal (Fin 0)), (''C'', NumVal (Fin 0))] trio =
     [(''B'', NumVal (Fin (4691249611844267 / 140737488355328))),
      (''C'', NumVal (Fin (4691249611844267 / 140737488355328)))]"
  by (simp add: step_defs trio_def round64_third round64_third_fixed)

lemma example_trio:
  "balances friendsABC (Some profileA) [trio] =
     [\<lparr>friendId = ''B'', balance_amount = NumVal (Fin (4691249611844267 / 140737488355328))\<rparr>,
      \<lparr>friendId = ''C'', balance_amount = NumVal (Fin (4691249611844267 / 140737488355328))\<rparr>]"
  by (simp add: balances_Some init_ABC step_trio output_defs)

section \<open>Balance Engine: the accumulation rule\<close>

text \<open>
  Claim C1. The accumulation rule, in the engine's binary64 arithmetic. For every output
  entry whose id is not a property name of \<^verbatim>\<open>Object.prototype\<close>, the amount is the sum of the
  adjustments of the rule, added up from \<^verbatim>\<open>0\<close> in the order in which the engine meets them,
  provided that sum is not \<^verbatim>\<open>NaN\<close>. The adjustments are: plus \<open>debtChunk\<close> for the consumer
  when the payer is the acting user and the consumer is not, minus \<open>debtChunk\<close> for the
  payer when the consumer is the acting user and the payer is not, nothing for any other
  pair, with \<open>debtChunk = (amount / |splitBetween|) * (paidAmount / amount)\<close>. This holds for
  every expense list; an expense with an empty \<open>splitBetween\<close> has no pair and adds nothing.
  The entries are those of the Friends not marked \<open>isMe\<close> and of the ids that receive an
  adjustment, \<^verbatim>\<open>__proto__\<close> excepted.
\<close>

theorem balances_sum_of_adjustments:
  "(\<forall>b \<in> set (balances fs (Some up) es).
      friendId b \<notin> set objectPrototypeKeys \<and>
      spec_owed (profile_id up) es (friendId b) \<noteq> NaN \<longrightarrow>
      balance_amount b = NumVal (spec_owed (profile_id up) es (friendId b))) \<and>
   outputIds (balances fs (Some up) es) =
     ({profile_id f | f. f \<in> set fs \<and> notMe f} \<union>
      (\<Union>e\<in>set es. owedBy (profile_id up) e \<union> owedTo (profile_id up) e)) - {''__proto__''}"
proof (intro conjI ballI impI)
  show "outputIds (balances fs (Some up) es) =
     ({profile_id f | f. f \<in> set fs \<and> notMe f} \<union>
      (\<Union>e\<in>set es. owedBy (profile_id up) e \<union> owedTo (profile_id up) e)) - {''__proto__''}"
    by (rule outputIds_balances)
next
  fix b
  assume b: "b \<in> set (balances fs (Some up) es)"
    and h: "friendId b \<notin> set objectPrototypeKeys \<and>
            spec_owed (profile_id up) es (friendId b) \<noteq> NaN"
  let ?final = "foldl (expenseStep (profile_id up)) (initBals fs) es"
  from b have entry: "map_of ?final (friendId b) = Some (balance_amount b)"
    by (rule balances_entry)
  from h have "tracks ?final (friendId b) (spec_owed (profile_id up) es (friendId b))"
    unfolding spec_owed_def by (intro tracks_foldl_expenseStep tracks_initBals) simp
  with h entry show "balance_amount b = NumVal (spec_owed (profile_id up) es (friendId b))"
    by (simp add: tracks_def)
qed

text \<open>The rule at work on the dinner and the taxi.\<close>

theorem balances_sum_of_adjustments_witness:
  "list_all (\<lambda>b. friendId b \<notin> set objectPrototypeKeys \<and>
               spec_owed (profile_id profileA) [dinner, taxi] (friendId b) \<noteq> NaN \<and>
               balance_amount b = NumVal (spec_owed (profile_id profileA) [dinner, taxi] (friendId b)))
     (balances friendsABC (Some profileA) [dinner, taxi]) \<and>
   balances friendsABC (Some profileA) [dinner, taxi] \<noteq> []"
proof -
  note out = example_dinner_taxi
  have hyp: "list_all (\<lambda>b. friendId b \<notin> set objectPrototypeKeys \<and>
               spec_owed (profile_id profileA) [dinner, taxi] (friendId b) \<noteq> NaN)
     (balances friendsABC (Some profileA) [dinner, taxi])"
    unfolding out
    by (simp add: objectPrototypeKeys_def profileA_def spec_defs dinner_def taxi_def)
  from hyp balances_sum_of_adjustments [of friendsABC profileA "[dinner, taxi]"]
  have "list_all (\<lambda>b. friendId b \<notin> set objectPrototypeKeys \<and>
               spec_owed (profile_id profileA) [dinner, taxi] (friendId b) \<noteq> NaN \<and>
               balance_amount b = NumVal (spec_owed (profile_id profileA) [dinner, taxi] (friendId b)))
     (balances friendsABC (Some profileA) [dinner, taxi])"
    unfolding list_all_iff by blast
  then show ?thesis by (simp add: out)
qed

lemma round64_huge: "round64 (pow2 1023 * 2) = PInf"
proof -
  have "pow2 1023 * 2 = pow2 1024"
    using pow2_add [of 1023 1] by (simp add: pow2_def)
  then show ?thesis
    by (simp add: round64_overflow signedInf_def abs_of_pos)
qed

lemma step_lent:
  "expenseStep ''A'' [(''B'', NumVal (Fin 0)), (''C'', NumVal (Fin 0))] lent =
     [(''B'', NumVal PInf), (''C'', NumVal (Fin 0))]"
  by (simp add: step_defs lent_def round64_huge signedInf_def)

lemma step_borrowed:
  "expenseStep ''A'' [(''B'', NumVal PInf), (''C'', NumVal (Fin 0))] borrowed =
     [(''B'', NumVal NaN), (''C'', NumVal (Fin 0))]"
  by (simp add: step_defs borrowed_def round64_huge signedInf_def)

lemma step_dinner_after_NaN:
  "expenseStep ''A'' [(''B'', NumVal NaN), (''C'', NumVal (Fin 0))] dinner =
     [(''B'', NumVal (Fin 100)), (''C'', NumVal (Fin 100))]"
  by (simp add: step_defs dinner_def)

lemma step_withConstructor:
  "expenseStep ''A'' [] withConstructor = [(''constructor'', StrVal)]"
  by (simp add: step_defs withConstructor_def)

text \<open>
  As stated, for every expense with a non-zero amount and a non-empty split and with real
  arithmetic, the claim fails in three ways. A hundred split three ways leaves each friend
  owing the binary64 number nearest to a third of a hundred, not a third of a hundred. After
  \<open>lent\<close> and \<open>borrowed\<close> the balance of \<open>B\<close> is \<^verbatim>\<open>Infinity - Infinity = NaN\<close>, which the next
  update reads as \<^verbatim>\<open>0\<close>: the dinner leaves \<^verbatim>\<open>100\<close> where the sum of the adjustments is
  \<^verbatim>\<open>NaN\<close>. And for a consumer whose id is \<^verbatim>\<open>constructor\<close> the read finds the inherited
  function, \<^verbatim>\<open>+\<close> concatenates, and the amount is a string.
\<close>

theorem sum_of_adjustments_counterexample:
  "regularExpense trio \<and>
   balances friendsABC (Some profileA) [trio] =
     [\<lparr>friendId = ''B'', balance_amount = NumVal (Fin (4691249611844267 / 140737488355328))\<rparr>,
      \<lparr>friendId = ''C'', balance_amount = NumVal (Fin (4691249611844267 / 140737488355328))\<rparr>] \<and>
   (4691249611844267 / 140737488355328 :: real) \<noteq> 100 / 3 \<and>
   list_all regularExpense [lent, borrowed, dinner] \<and>
   spec_owed ''A'' [lent, borrowed, dinner] ''B'' = NaN \<and>
   balances friendsABC (Some profileA) [lent, borrowed, dinner] =
     [\<lparr>friendId = ''B'', balance_amount = NumVal (Fin 100)\<rparr>,
      \<lparr>friendId = ''C'', balance_amount = NumVal (Fin 100)\<rparr>] \<and>
   regularExpense withConstructor \<and>
   spec_owed ''A'' [withConstructor] ''constructor'' = Fin 100 \<and>
   balances [mkFriend ''A'' (Some True)] (Some profileA) [withConstructor] =
     [\<lparr>friendId = ''constructor'', balance_amount = StrVal\<rparr>]"
proof (intro conjI)
  show "regularExpense trio"
    by (simp add: regularExpense_def trio_def mkExpense_def)
  show "balances friendsABC (Some profileA) [trio] =
     [\<lparr>friendId = ''B'', balance_amount = NumVal (Fin (4691249611844267 / 140737488355328))\<rparr>,
      \<lparr>friendId = ''C'', balance_amount = NumVal (Fin (4691249611844267 / 140737488355328))\<rparr>]"
    by (rule example_trio)
  show "(4691249611844267 / 140737488355328 :: real) \<noteq> 100 / 3"
    by simp
  show "list_all regularExpense [lent, borrowed, dinner]"
    by (simp add: regularExpense_def lent_def borrowed_def dinner_def mkExpense_def)
  show "regularExpense withConstructor"
    by (simp add: regularExpense_def withConstructor_def mkExpense_def)
  show "spec_owed ''A'' [lent, borrowed, dinner] ''B'' = NaN"
    by (simp add: spec_defs lent_def borrowed_def dinner_def round64_huge signedInf_def)
  show "spec_owed ''A'' [withConstructor] ''constructor'' = Fin 100"
    by (simp add: spec_defs withConstructor_def)
  show "balances friendsABC (Some profileA) [lent, borrowed, dinner] =
     [\<lparr>friendId = ''B'', balance_amount = NumVal (Fin 100)\<rparr>,
      \<lparr>friendId = ''C'', balance_amount = NumVal (Fin 100)\<rparr>]"
    by (simp add: balances_Some init_ABC step_lent step_borrowed step_dinner_after_NaN output_defs)
  show "balances [mkFriend ''A'' (Some True)] (Some profileA) [withConstructor] =
     [\<lparr>friendId = ''constructor'', balance_amount = StrVal\<rparr>]"
    by (simp add: balances_Some init_A step_withConstructor output_defs)
qed

section \<open>Balance Engine: division by zero\<close>

lemma step_freebie:
  "expenseStep ''A'' [(''B'', NumVal (Fin 0))] freebie = [(''B'', NumVal NaN)]"
  by (simp add: step_defs freebie_def)

text \<open>
  Claim C2. An expense whose amount is 0 should contribute nothing and leave no non-finite
  balance. The memo divides without a guard: with \<^verbatim>\<open>exp.amount = 0\<close> the weight is
  \<^verbatim>\<open>0 / 0 = NaN\<close> (or an infinity for a non-zero payment), \<^verbatim>\<open>costPerPerson\<close> is 0, and
  \<^verbatim>\<open>debtChunk = 0 * weight\<close> is \<^verbatim>\<open>NaN\<close>. Here \<open>A\<close> is the acting user and the zero-amount
  expense is split between \<open>A\<close> and \<open>B\<close> with \<open>A\<close> as payer: the balance of \<open>B\<close> becomes
  \<^verbatim>\<open>NaN\<close>.
\<close>

theorem zero_amount_expense_yields_NaN:
  "balances [mkFriend ''A'' (Some True), mkFriend ''B'' (Some False)] (Some profileA) [freebie]
   = [\<lparr>friendId = ''B'', balance_amount = NumVal NaN\<rparr>]"
  by (simp add: balances_Some init_AB step_freebie output_defs)

text \<open>
  The input above is not special: with a zero amount and at least one consumer, the debt
  chunk is \<^verbatim>\<open>NaN\<close> whatever the payer put in.
\<close>

lemma debtChunk_zero_amount:
  "0 < n \<Longrightarrow> jmul (jdiv (Fin 0) (Fin (real n))) (jdiv paidAmount (Fin 0)) = NaN"
  by (cases paidAmount) (simp_all add: signedInf_def)

text \<open>
  Claim C3. An expense whose \<open>splitBetween\<close> is empty changes no balance: the loop over the
  consumers has nothing to run over, so the non-finite \<^verbatim>\<open>costPerPerson\<close> is never used, and
  the output over a list containing the expense is the output over the list without it.
\<close>

theorem empty_split_contributes_nothing:
  assumes "splitBetween e = []"
  shows "expenseStep me bals e = bals \<and>
         balances fs u (xs @ e # ys) = balances fs u (xs @ ys)"
  using assms by (simp add: expenseStep_empty_split balances_def split: option.splits)

theorem empty_split_contributes_nothing_witness:
  "splitBetween orphan = [] \<and>
   expenseStep ''A'' (initBals friendsABC) orphan = initBals friendsABC \<and>
   balances friendsABC (Some profileA) ([dinner] @ orphan # [taxi]) =
   balances friendsABC (Some profileA) ([dinner] @ [taxi])"
proof -
  have h: "splitBetween orphan = []" by (simp add: orphan_def mkExpense_def)
  from h empty_split_contributes_nothing [OF h] show ?thesis by blast
qed

section \<open>Balance Engine: the entries of the output\<close>

text \<open>
  Claim C6. For an acting user, the output has exactly one entry for each Friend that is not
  marked \<open>isMe\<close> and whose id is not \<^verbatim>\<open>__proto__\<close>, and when the friend's id occurs in no
  expense's \<open>paidBy\<close> or \<open>splitBetween\<close> the amount of that entry is exactly 0.
\<close>

theorem one_entry_per_friend:
  "\<forall>f\<in>set fs. notMe f \<and> profile_id f \<noteq> ''__proto__'' \<longrightarrow>
     length (filter (\<lambda>b. friendId b = profile_id f) (balances fs (Some up) es)) = 1 \<and>
     ((\<forall>e\<in>set es. profile_id f \<notin> keys (paidBy e) \<and> profile_id f \<notin> set (splitBetween e)) \<longrightarrow>
      (\<forall>b\<in>set (balances fs (Some up) es).
         friendId b = profile_id f \<longrightarrow> balance_amount b = NumVal (Fin 0)))"
proof (intro ballI impI conjI)
  fix f
  assume f: "f \<in> set fs" "notMe f \<and> profile_id f \<noteq> ''__proto__''"
  let ?final = "foldl (expenseStep (profile_id up)) (initBals fs) es"
  have dist: "distinct (map fst (objectEntries ?final))"
    by (intro distinct_objectEntries distinct_foldl_expenseStep distinct_initBals)
  from f have init: "profile_id f \<in> keys (initBals fs)" by (auto simp: keys_initBals)
  then have "profile_id f \<in> keys (objectEntries ?final)"
    using f by (simp add: keys_foldl_expenseStep [OF proto_initBals])
  with dist show "length (filter (\<lambda>b. friendId b = profile_id f) (balances fs (Some up) es)) = 1"
    by (simp only: balances_def Let_def option.case filter_toBalance one_entry_per_key)
  fix b
  assume untouched: "\<forall>e\<in>set es. profile_id f \<notin> keys (paidBy e) \<and> profile_id f \<notin> set (splitBetween e)"
    and b: "b \<in> set (balances fs (Some up) es)" "friendId b = profile_id f"
  from b(1) have "map_of ?final (friendId b) = Some (balance_amount b)"
    by (rule balances_entry)
  moreover from untouched have "map_of ?final (profile_id f) = map_of (initBals fs) (profile_id f)"
    by (intro map_of_foldl_expenseStep_other) auto
  ultimately have "(profile_id f, balance_amount b) \<in> set (initBals fs)"
    using b(2) by (auto dest: map_of_SomeD)
  with initBals_zero [of fs] show "balance_amount b = NumVal (Fin 0)" by auto
qed

theorem one_entry_per_friend_witness:
  "mkFriend ''C'' None \<in> set friendsABC \<and> notMe (mkFriend ''C'' None) \<and>
   profile_id (mkFriend ''C'' None) \<noteq> ''__proto__'' \<and>
   ''C'' \<notin> keys (paidBy taxi) \<and> ''C'' \<notin> set (splitBetween taxi) \<and>
   length (filter (\<lambda>b. friendId b = ''C'') (balances friendsABC (Some profileA) [taxi])) = 1 \<and>
   list_all (\<lambda>b. friendId b \<noteq> ''C'' \<or> balance_amount b = NumVal (Fin 0))
     (balances friendsABC (Some profileA) [taxi])"
proof -
  have m: "mkFriend ''C'' None \<in> set friendsABC" by (simp add: friendsABC_def)
  have n: "notMe (mkFriend ''C'' None)" by (simp add: notMe_def mkFriend_def)
  have u: "\<forall>e\<in>set [taxi]. ''C'' \<notin> keys (paidBy e) \<and> ''C'' \<notin> set (splitBetween e)"
    by (simp add: taxi_def mkExpense_def keys_def)
  have i: "profile_id (mkFriend ''C'' None) = ''C''" by (simp add: mkFriend_def)
  from one_entry_per_friend [of friendsABC profileA "[taxi]"] m n u i
  show ?thesis by (auto simp: list_all_iff)
qed

text \<open>
  Without the proviso the claim fails: \<^verbatim>\<open>bals['__proto__'] = 0\<close> creates no property, and a
  Friend with that id has no entry.
\<close>

theorem one_entry_per_friend_counterexample:
  "notMe (mkFriend ''__proto__'' (Some False)) \<and>
   balances [mkFriend ''__proto__'' (Some False)] (Some profileA) [] = []"
  by (simp add: balances_Some initBals_def initFriend_def notMe_def setProp_def mkFriend_def
      objectEntries_def List.map_filter_simps)

text \<open>
  Claim C7. The output is determined, as a multiset of entries, by the content of the
  inputs. Two states give the same multiset when they hold the same Friend collection, the
  same acting-user id and expense lists that agree expense by expense, the \<open>paidBy\<close> objects
  holding the same properties in whatever enumeration order; nothing else in the state
  matters. The order of the entries does depend on the enumeration order, as the witness
  shows.
\<close>

theorem balancesMemo_deterministic:
  assumes "list_all2 sameContent (st_expenses s) (st_expenses s')"
    and "\<forall>e\<in>set (st_expenses s). distinct (map fst (paidBy e))"
    and "st_friends s = st_friends s'"
    and "map_option profile_id (st_userProfile s) = map_option profile_id (st_userProfile s')"
  shows "mset (balancesMemo s) = mset (balancesMemo s')"
proof -
  have "balances (st_friends s') (st_userProfile s) es = balances (st_friends s') (st_userProfile s') es"
    for es
    using assms(4) by (auto simp: balances_def split: option.splits)
  then show ?thesis
    using balances_sameContent [OF assms(1,2), of "st_friends s'" "st_userProfile s"]
    by (simp add: balancesMemo_def assms(3))
qed

theorem balancesMemo_deterministic_witness:
  "list_all2 sameContent (st_expenses stateHome) (st_expenses stateProfileTab) \<and>
   list_all (\<lambda>e. distinct (map fst (paidBy e))) (st_expenses stateHome) \<and>
   st_friends stateHome = st_friends stateProfileTab \<and>
   map_option profile_id (st_userProfile stateHome) =
     map_option profile_id (st_userProfile stateProfileTab) \<and>
   balancesMemo stateHome \<noteq> balancesMemo stateProfileTab \<and>
   mset (balancesMemo stateHome) = mset (balancesMemo stateProfileTab)"
proof -
  have e: "list_all2 sameContent (st_expenses stateHome) (st_expenses stateProfileTab)"
    by (simp add: stateHome_def stateProfileTab_def sameContent_def pooled_def pooledReordered_def
        mkExpense_def)
  have d: "\<forall>e\<in>set (st_expenses stateHome). distinct (map fst (paidBy e))"
    by (simp add: stateHome_def pooled_def mkExpense_def)
  have f: "st_friends stateHome = st_friends stateProfileTab"
    by (simp add: stateProfileTab_def)
  have u: "map_option profile_id (st_userProfile stateHome) =
           map_option profile_id (st_userProfile stateProfileTab)"
    by (simp add: stateHome_def stateProfileTab_def)
  have n: "balancesMemo stateHome \<noteq> balancesMemo stateProfileTab"
    by (simp add: balancesMemo_def stateHome_def stateProfileTab_def example_pooled profileA_def)
  from e d f u n balancesMemo_deterministic [OF e d f u] show ?thesis
    by (simp add: list_all_iff)
qed

text \<open>
  Claim C9. The output has no entry for the acting user's id. The initialisation leaves out
  the friends marked \<open>isMe\<close>, not the friends whose id is the acting user's, so the property
  needs every Friend with the acting user's id to carry the mark; the two accumulation
  branches never write the acting user's id.
\<close>

theorem no_self_balance:
  assumes "\<forall>f\<in>set fs. profile_id f = profile_id up \<longrightarrow> isMe f = Some True"
  shows "profile_id up \<notin> outputIds (balances fs (Some up) es)"
  using assms by (auto simp: outputIds_balances owedBy_def owedTo_def notMe_def)

theorem no_self_balance_witness:
  "list_all (\<lambda>f. profile_id f \<noteq> profile_id profileA \<or> isMe f = Some True) friendsABC \<and>
   profile_id profileA \<notin> outputIds (balances friendsABC (Some profileA) [dinner, taxi])"
proof -
  have h: "\<forall>f\<in>set friendsABC. profile_id f = profile_id profileA \<longrightarrow> isMe f = Some True"
    by (simp add: friendsABC_def mkFriend_def profileA_def)
  from h no_self_balance [OF h] show ?thesis by (auto simp: list_all_iff)
qed

text \<open>
  Without the mark the claim fails: a Friend collection holding the acting user's own
  profile with \<open>isMe\<close> unset yields an entry for the acting user.
\<close>

theorem self_balance_counterexample:
  "map friendId (balances [mkFriend ''A'' None] (Some profileA) []) = [''A'']"
  by (simp add: balances_Some initBals_def initFriend_def notMe_def setProp_def mkFriend_def
      output_defs)

text \<open>
  Claim C10. Every id in the output is the id of a Friend not marked \<open>isMe\<close>, or occurs in the
  \<open>splitBetween\<close> of an expense the acting user paid for, or occurs in the \<open>paidBy\<close> of an
  expense the acting user shares in. The ids of the last two groups have an entry whether or
  not they are in the Friend collection, with two exceptions: the acting user's own id, which
  both branches refuse to write, and \<^verbatim>\<open>__proto__\<close>, for which the assignment creates no
  property.
\<close>

theorem output_ids_on_demand:
  "outputIds (balances fs (Some up) es) \<subseteq>
     {profile_id f | f. f \<in> set fs \<and> notMe f} \<union>
     {c. \<exists>e\<in>set es. c \<in> set (splitBetween e) \<and> profile_id up \<in> keys (paidBy e)} \<union>
     {p. \<exists>e\<in>set es. p \<in> keys (paidBy e) \<and> profile_id up \<in> set (splitBetween e)}
   \<and> (\<forall>e\<in>set es. \<forall>c\<in>set (splitBetween e).
        profile_id up \<in> keys (paidBy e) \<and> c \<noteq> profile_id up \<and> c \<noteq> ''__proto__'' \<longrightarrow>
        c \<in> outputIds (balances fs (Some up) es))
   \<and> (\<forall>e\<in>set es. \<forall>p\<in>keys (paidBy e).
        profile_id up \<in> set (splitBetween e) \<and> p \<noteq> profile_id up \<and> p \<noteq> ''__proto__'' \<longrightarrow>
        p \<in> outputIds (balances fs (Some up) es))"
  unfolding outputIds_balances by (auto simp: owedBy_def owedTo_def)

theorem output_ids_on_demand_witness:
  "gift \<in> set [gift] \<and> ''E'' \<in> set (splitBetween gift) \<and> ''D'' \<in> keys (paidBy gift) \<and>
   profile_id profileA \<in> keys (paidBy gift) \<and> profile_id profileA \<in> set (splitBetween gift) \<and>
   ''E'' \<notin> profile_id ` set friendsABC \<and> ''D'' \<notin> profile_id ` set friendsABC \<and>
   ''E'' \<in> outputIds (balances friendsABC (Some profileA) [gift]) \<and>
   ''D'' \<in> outputIds (balances friendsABC (Some profileA) [gift])"
proof -
  have g: "gift \<in> set [gift]" by simp
  have e: "''E'' \<in> set (splitBetween gift)" by (simp add: gift_def mkExpense_def)
  have d: "''D'' \<in> keys (paidBy gift)" by (simp add: gift_def mkExpense_def keys_def)
  have p: "profile_id profileA \<in> keys (paidBy gift)"
    by (simp add: gift_def mkExpense_def keys_def profileA_def)
  have s: "profile_id profileA \<in> set (splitBetween gift)"
    by (simp add: gift_def mkExpense_def profileA_def)
  have ne: "''E'' \<noteq> profile_id profileA" and nd: "''D'' \<noteq> profile_id profileA"
    by (simp_all add: profileA_def)
  have pe: "''E'' \<noteq> ''__proto__''" and pd: "''D'' \<noteq> ''__proto__''" by simp_all
  have fe: "''E'' \<notin> profile_id ` set friendsABC" and fd: "''D'' \<notin> profile_id ` set friendsABC"
    by (simp_all add: friendsABC_def mkFriend_def)
  from output_ids_on_demand [of friendsABC profileA "[gift]"] g e d p s ne nd pe pd fe fd
  show ?thesis by blast
qed

lemma step_withProto:
  "expenseStep ''A'' [(''B'', NumVal (Fin 0)), (''C'', NumVal (Fin 0))] withProto =
     [(''B'', NumVal (Fin 0)), (''C'', NumVal (Fin 0))]"
  by (simp add: step_defs withProto_def)

text \<open>
  The exceptions are needed. In \<open>dinner\<close> the acting user \<open>A\<close> is a payer and occurs in
  \<open>splitBetween\<close>, so \<open>A\<close> belongs to the second group, and yet has no entry; in
  \<open>withProto\<close> the consumer \<^verbatim>\<open>__proto__\<close> belongs to it and has none either.
\<close>

theorem output_ids_counterexample:
  "''A'' \<in> set (splitBetween dinner) \<and> profile_id profileA \<in> keys (paidBy dinner) \<and>
   ''A'' \<notin> outputIds (balances friendsABC (Some profileA) [dinner]) \<and>
   ''__proto__'' \<in> set (splitBetween withProto) \<and> profile_id profileA \<in> keys (paidBy withProto) \<and>
   ''__proto__'' \<noteq> profile_id profileA \<and>
   ''__proto__'' \<notin> outputIds (balances friendsABC (Some profileA) [withProto])"
proof -
  have o1: "outputIds (balances friendsABC (Some profileA) [dinner]) = {''B'', ''C''}"
    by (simp add: example_dinner outputIds_def)
  have o2: "outputIds (balances friendsABC (Some profileA) [withProto]) = {''B'', ''C''}"
    by (simp add: balances_Some init_ABC step_withProto output_defs outputIds_def)
  show ?thesis
    unfolding o1 o2 by (simp add: dinner_def withProto_def mkExpense_def keys_def profileA_def)
qed

section \<open>Submission Encoder\<close>

text \<open>
  What the test does: equal numbers pass it, an operand that is not finite fails it, and at
  the pair below it disagrees with the comparison over the reals.
\<close>

lemma withinTolerance_same: "withinTolerance (Fin x) (Fin x)"
  by (simp add: withinTolerance_def jsub_def literal_0_01_def)

lemma withinTolerance_special:
  "\<not> isFinite paid \<or> \<not> isFinite amt \<Longrightarrow> \<not> withinTolerance paid amt"
  by (cases paid; cases amt) (simp_all add: withinTolerance_def jsub_def literal_0_01_def)

lemma withinTolerance_sliver:
  "\<not> withinTolerance (Fin double_0_0101) (Fin double_0_0001)"
  using round64_sliver by (simp add: withinTolerance_def jsub_def literal_0_01_def)

text \<open>
  Claim C4. The persisted \<open>paid_by\<close> is the bare payer id exactly when \<open>paidBy\<close> has one
  entry and \<^verbatim>\<open>Math.abs(paid - amount) < 0.01\<close> holds in binary64, the difference being rounded
  before it is compared with the binary64 number nearest to one hundredth; in every other
  case (no entry, two or more entries, a single entry failing the test) it is the \<open>paidBy\<close>
  mapping itself.
\<close>

theorem encoder_routing:
  "map_option payload_paid_by (handleAddExpense (Some up) now d) =
     Some (case new_paidBy d of
             [(payerId, paid)] \<Rightarrow>
               if withinTolerance paid (new_amount d) then PayerId payerId
               else PayerMap (new_paidBy d)
           | _ \<Rightarrow> PayerMap (new_paidBy d))"
proof (cases "new_paidBy d")
  case Nil
  then show ?thesis by (simp add: handleAddExpense_def paidByPayload_def)
next
  case (Cons entry rest)
  obtain payerId paid where entry: "entry = (payerId, paid)" by (cases entry)
  show ?thesis
  proof (cases rest)
    case Nil
    with Cons entry show ?thesis
      by (simp add: handleAddExpense_def paidByPayload_def propAsNumber_def)
  next
    case (Cons entry' rest')
    with \<open>new_paidBy d = entry # rest\<close> entry show ?thesis
      by (simp add: handleAddExpense_def paidByPayload_def)
  qed
qed

theorem encoder_routing_witness:
  "map_option payload_paid_by (handleAddExpense (Some profileA) ''now'' draftSingle) =
     Some (PayerId ''A'') \<and>
   map_option payload_paid_by (handleAddExpense (Some profileA) ''now'' draftPartial) =
     Some (PayerMap [(''A'', Fin 250)]) \<and>
   map_option payload_paid_by (handleAddExpense (Some profileA) ''now'' draftShared) =
     Some (PayerMap [(''A'', Fin 150), (''B'', Fin 150)])"
  using encoder_routing [of profileA "''now''" draftSingle]
    encoder_routing [of profileA "''now''" draftPartial]
    encoder_routing [of profileA "''now''" draftShared]
  by (simp add: draftSingle_def draftPartial_def draftShared_def mkDraft_def withinTolerance_def
      jsub_def literal_0_01_def round64_int)

text \<open>
  Read over the reals the claim fails. The binary64 numbers nearest to \<open>0.0101\<close> and to
  \<open>0.0001\<close> differ by less than one hundredth, but their difference rounds to the literal
  \<^verbatim>\<open>0.01\<close> itself: the test is false and the mapping is kept.
\<close>

theorem encoder_routing_counterexample:
  "\<bar>double_0_0101 - double_0_0001\<bar> < 1 / 100 \<and>
   map_option payload_paid_by
     (handleAddExpense (Some profileA) ''now'' (mkDraft (Fin double_0_0001) [(''A'', Fin double_0_0101)])) =
     Some (PayerMap [(''A'', Fin double_0_0101)])"
proof
  show "\<bar>double_0_0101 - double_0_0001\<bar> < 1 / 100"
    by (simp add: double_0_0101_def double_0_0001_def)
  show "map_option payload_paid_by
     (handleAddExpense (Some profileA) ''now'' (mkDraft (Fin double_0_0001) [(''A'', Fin double_0_0101)])) =
     Some (PayerMap [(''A'', Fin double_0_0101)])"
    using withinTolerance_sliver
    by (simp add: handleAddExpense_def paidByPayload_def propAsNumber_def mkDraft_def)
qed

text \<open>
  Claim C8. The encoder copies \<open>amount\<close>, \<open>split_between\<close>, \<open>description\<close> and \<open>category\<close>
  from the draft, and when it chooses the mapping form the persisted mapping is the draft's
  \<open>paidBy\<close>, entry for entry: nothing is rescaled to make the payments add up to the total.
\<close>

theorem encoder_frame:
  assumes "handleAddExpense (Some up) now d = Some p"
  shows "payload_amount p = new_amount d \<and>
         payload_split_between p = new_splitBetween d \<and>
         payload_description p = new_description d \<and>
         payload_category p = new_category d \<and>
         (\<forall>m. payload_paid_by p = PayerMap m \<longrightarrow> m = new_paidBy d)"
  using assms by (auto simp: handleAddExpense_def paidByPayload_def Let_def split: if_splits)

theorem encoder_frame_witness:
  "handleAddExpense (Some profileA) ''now'' draftDrift =
     Some \<lparr>payload_description = ''hotel'', payload_amount = Fin 300,
           payload_paid_by = PayerMap [(''A'', Fin 100), (''B'', Fin 150)],
           payload_split_between = [''A'', ''B''], payload_category = Other,
           payload_date = ''now'', payload_created_by = ''A''\<rparr> \<and>
   new_amount draftDrift = Fin 300 \<and>
   new_paidBy draftDrift = [(''A'', Fin 100), (''B'', Fin 150)]"
proof -
  have h: "handleAddExpense (Some profileA) ''now'' draftDrift =
     Some \<lparr>payload_description = ''hotel'', payload_amount = Fin 300,
           payload_paid_by = PayerMap [(''A'', Fin 100), (''B'', Fin 150)],
           payload_split_between = [''A'', ''B''], payload_category = Other,
           payload_date = ''now'', payload_created_by = ''A''\<rparr>"
    by (simp add: handleAddExpense_def paidByPayload_def draftDrift_def mkDraft_def profileA_def)
  from h encoder_frame [OF h] show ?thesis by simp
qed

section \<open>Expense Normalizer\<close>

text \<open>
  Claim C5. For every row other than \<^verbatim>\<open>null\<close> and \<^verbatim>\<open>undefined\<close> the callback returns without
  an exception. A string \<open>paid_by\<close> other than \<^verbatim>\<open>__proto__\<close> yields the singleton mapping from
  that id to the row's amount; a mapping is passed through; \<^verbatim>\<open>null\<close> and an absent \<open>paid_by\<close>
  yield the empty mapping; an absent or \<^verbatim>\<open>null\<close> \<open>split_between\<close> yields the empty array.
\<close>

theorem normalizer_cases:
  assumes "e \<noteq> Undefined" and "e \<noteq> Null"
  shows "formatExpense e = Inr (formatted e) \<and>
   (\<forall>s. col e ''paid_by'' = Str s \<and> s \<noteq> ''__proto__'' \<longrightarrow>
      fmt_paidBy (formatted e) = Obj [(s, col e ''amount'')]) \<and>
   (\<forall>m. col e ''paid_by'' = Obj m \<longrightarrow> fmt_paidBy (formatted e) = Obj m) \<and>
   (col e ''paid_by'' = Null \<or> col e ''paid_by'' = Undefined \<longrightarrow>
      fmt_paidBy (formatted e) = Obj []) \<and>
   (col e ''split_between'' = Undefined \<or> col e ''split_between'' = Null \<longrightarrow>
      fmt_splitBetween (formatted e) = Arr [])"
  using assms by (cases e) (auto simp: formatted_def)

theorem normalizer_cases_witness:
  "formatExpense rowLegacy = Inr (formatted rowLegacy) \<and>
   fmt_paidBy (formatted rowLegacy) = Obj [(''u1'', Num (Fin 300))] \<and>
   fmt_paidBy (formatted rowMapping) = Obj [(''u1'', Num (Fin 100)), (''u2'', Num (Fin 200))] \<and>
   fmt_paidBy (formatted rowNull) = Obj [] \<and>
   fmt_splitBetween (formatted rowNull) = Arr []"
proof -
  have l: "rowLegacy \<noteq> Undefined" "rowLegacy \<noteq> Null"
    and m: "rowMapping \<noteq> Undefined" "rowMapping \<noteq> Null"
    and n: "rowNull \<noteq> Undefined" "rowNull \<noteq> Null"
    by (simp_all add: rowLegacy_def rowMapping_def rowNull_def mkRow_def)
  from normalizer_cases [OF l] normalizer_cases [OF m] normalizer_cases [OF n]
  show ?thesis
    by (simp add: rowLegacy_def rowMapping_def rowNull_def mkRow_def col_def)
qed

text \<open>
  The string \<^verbatim>\<open>__proto__\<close> is the exception: the assignment creates no own property and the
  canonical \<open>paidBy\<close> is empty, not a singleton.
\<close>

theorem normalizer_cases_counterexample:
  "col rowProto ''paid_by'' = Str ''__proto__'' \<and>
   formatExpense rowProto = Inr (formatted rowProto) \<and>
   fmt_paidBy (formatted rowProto) = Obj []"
  by (simp add: rowProto_def mkRow_def col_def formatted_def)

text \<open>A \<^verbatim>\<open>null\<close> row, which no query result contains, is the one input on which the callback throws.\<close>

lemma formatExpense_null: "formatExpense Null = Inl TypeError" "formatExpense Undefined = Inl TypeError"
  by simp_all

end
